theory Spec2Isabelle
  imports Main "HOL-Library.Word" "HOL-Library.AList"
begin

section \<open>JavaScript values as the library sees them\<close>

text \<open>
  Slack.js is a script for a JavaScript host. Its strings are sequences of 16-bit code
  units (\<open>slice\<close> and \<open>length\<close> count code units), so a string is a list of
  16-bit words. \<open>str\<close> turns an ASCII literal of the source into such a list.
\<close>

type_synonym jstring = "16 word list"

definition str :: "string \<Rightarrow> jstring" where
  "str s = map (\<lambda>c. word_of_int (of_char c)) s"

text \<open>
  The values the script handles are the values of parsed JSON (responses of the Slack
  API, payloads built by the caller) and \<open>undefined\<close>, which every read of a missing
  property yields. Numbers are the integer-valued ones. An object is the list of its own
  properties in enumeration order.
\<close>

datatype jsval =
    VUndefined
  | VNull
  | VBool bool
  | VNum int
  | VStr jstring
  | VArr "jsval list"
  | VObj "(jstring \<times> jsval) list"

text \<open>
  What the script can throw: a \<open>TypeError\<close> (a property read on \<open>null\<close> or
  \<open>undefined\<close>, a call of a method the value does not have), a \<open>URIError\<close>
  (\<open>encodeURIComponent\<close> on a lone surrogate), a \<open>SyntaxError\<close> (\<open>JSON.parse\<close> on
  a body that is not JSON) and whatever the host's transport throws.
\<close>

datatype js_error = TypeError | URIError | SyntaxError | HostError

definition andThen :: "js_error + 'a \<Rightarrow> ('a \<Rightarrow> js_error + 'b) \<Rightarrow> js_error + 'b" where
  "andThen r f = (case r of Inl e \<Rightarrow> Inl e | Inr v \<Rightarrow> f v)"

subsection \<open>Coercions\<close>

fun join :: "jstring \<Rightarrow> jstring list \<Rightarrow> jstring" where
  "join sep [] = []"
| "join sep [x] = x"
| "join sep (x # y # ys) = x @ sep @ join sep (y # ys)"

fun nat_to_string :: "nat \<Rightarrow> jstring" where
  "nat_to_string n =
     (if n < 10 then [of_nat (48 + n)]
      else nat_to_string (n div 10) @ [of_nat (48 + n mod 10)])"

declare nat_to_string.simps [simp del]

definition int_to_string :: "int \<Rightarrow> jstring" where
  "int_to_string i =
     (if i < 0 then str ''-'' @ nat_to_string (nat (- i)) else nat_to_string (nat i))"

text \<open>
  \<open>to_string\<close> is the coercion that \<open>'...' + x\<close> and \<open>encodeURIComponent(x)\<close> apply:
  an array joins its elements with commas (\<open>null\<close> and \<open>undefined\<close> elements are
  empty), a plain object is \<open>[object Object]\<close>.
\<close>

fun to_string :: "jsval \<Rightarrow> jstring" where
  "to_string VUndefined = str ''undefined''"
| "to_string VNull = str ''null''"
| "to_string (VBool b) = (if b then str ''true'' else str ''false'')"
| "to_string (VNum n) = int_to_string n"
| "to_string (VStr s) = s"
| "to_string (VArr xs) =
     join (str '','')
       (map (\<lambda>x. case x of VUndefined \<Rightarrow> [] | VNull \<Rightarrow> [] | _ \<Rightarrow> to_string x) xs)"
| "to_string (VObj kvs) = str ''[object Object]''"

text \<open>The test of \<open>if (x)\<close>, \<open>!x\<close> and \<open>!!x\<close>.\<close>

fun truthy :: "jsval \<Rightarrow> bool" where
  "truthy VUndefined = False"
| "truthy VNull = False"
| "truthy (VBool b) = b"
| "truthy (VNum n) = (n \<noteq> 0)"
| "truthy (VStr s) = (s \<noteq> [])"
| "truthy (VArr xs) = True"
| "truthy (VObj kvs) = True"

text \<open>
  A property read \<open>x.k\<close>. On \<open>null\<close> and \<open>undefined\<close> it throws; on an object it is
  the property or \<open>undefined\<close>; on a string, number, boolean or array it is
  \<open>undefined\<close> for every name the script reads (none of them is \<open>length\<close>, an index or
  a method of the prototype).
\<close>

fun get_prop :: "jsval \<Rightarrow> jstring \<Rightarrow> js_error + jsval" where
  "get_prop VUndefined k = Inl TypeError"
| "get_prop VNull k = Inl TypeError"
| "get_prop (VObj kvs) k = Inr (case map_of kvs k of None \<Rightarrow> VUndefined | Some v \<Rightarrow> v)"
| "get_prop v k = Inr VUndefined"

text \<open>
  \<open>x == 'literal'\<close> for the three literals the script compares with (\<open>name_taken\<close>,
  \<open>already_in_channel\<close>, \<open>xmatters\<close>). None of them reads as a number, so a number or
  a boolean is never equal to one; an array or object is compared through its string
  form.
\<close>

fun loose_eq_literal :: "jsval \<Rightarrow> jstring \<Rightarrow> bool" where
  "loose_eq_literal (VStr s) lit = (s = lit)"
| "loose_eq_literal (VArr xs) lit = (to_string (VArr xs) = lit)"
| "loose_eq_literal (VObj kvs) lit = (to_string (VObj kvs) = lit)"
| "loose_eq_literal v lit = False"

text \<open>
  The values \<open>for (var i in x) ... x[i]\<close> visits, in order: the elements of an array,
  the property values of an object, the one-unit strings of a string, nothing otherwise.
\<close>

fun for_in :: "jsval \<Rightarrow> jsval list" where
  "for_in (VArr xs) = xs"
| "for_in (VObj kvs) = map snd kvs"
| "for_in (VStr s) = map (\<lambda>c. VStr [c]) s"
| "for_in v = []"

subsection \<open>String methods\<close>

text \<open>\<open>\s\<close> in a regular expression: the white space and line terminators of the language.\<close>

definition is_space :: "16 word \<Rightarrow> bool" where
  "is_space c =
     ((0x09 \<le> c \<and> c \<le> 0x0D) \<or> c = 0x20 \<or> c = 0xA0 \<or> c = 0x1680
      \<or> (0x2000 \<le> c \<and> c \<le> 0x200A) \<or> c = 0x2028 \<or> c = 0x2029 \<or> c = 0x202F
      \<or> c = 0x205F \<or> c = 0x3000 \<or> c = 0xFEFF)"

text \<open>\<open>s.replace(/\s+/g, '-')\<close>: every maximal run of white space becomes one hyphen.\<close>

function collapse_ws :: "jstring \<Rightarrow> jstring" where
  "collapse_ws [] = []"
| "collapse_ws (c # cs) =
     (if is_space c then 0x2D # collapse_ws (dropWhile is_space cs)
      else c # collapse_ws cs)"
  by pat_completeness auto
termination
  by (relation "measure length") (auto simp: length_dropWhile_le less_Suc_eq_le)

text \<open>
  \<open>s.toLowerCase()\<close> maps each code unit by the Unicode case table. The table is given
  here for Basic Latin and Latin-1 (U+0000 to U+00FF), where a capital letter is 32 below
  its small letter, and for U+0130 (capital I with dot above), whose lower case takes
  two code units: U+0069 U+0307. Other code units are returned as they are, so nothing
  below is claimed about the lower case of letters outside that range.
\<close>

definition is_upper :: "16 word \<Rightarrow> bool" where
  "is_upper c =
     ((0x41 \<le> c \<and> c \<le> 0x5A) \<or> (0xC0 \<le> c \<and> c \<le> 0xD6) \<or> (0xD8 \<le> c \<and> c \<le> 0xDE))"

definition lower_unit :: "16 word \<Rightarrow> jstring" where
  "lower_unit c =
     (if is_upper c then [c + 0x20]
      else if c = 0x130 then [0x69, 0x307]
      else [c])"

definition toLowerCase :: "jstring \<Rightarrow> jstring" where
  "toLowerCase s = concat (map lower_unit s)"

text \<open>\<open>x.toLowerCase()\<close> on a value: only a string has the method.\<close>

fun lower_case_of :: "jsval \<Rightarrow> js_error + jstring" where
  "lower_case_of (VStr s) = Inr (toLowerCase s)"
| "lower_case_of v = Inl TypeError"

subsection \<open>Channel names\<close>

definition MAX_CHANNEL_NAME_LENGTH :: nat where
  "MAX_CHANNEL_NAME_LENGTH = 21"

text \<open>
  The first statement of \<open>createChannel\<close>, \<open>getChannel\<close> and \<open>archiveChannel\<close>:
  \<^verbatim>\<open>channelName.slice(0, MAX_CHANNEL_NAME_LENGTH).replace(/\s+/g, '-').toLowerCase()\<close>
\<close>

definition canonicalize :: "jstring \<Rightarrow> jstring" where
  "canonicalize channelName =
     toLowerCase (collapse_ws (take MAX_CHANNEL_NAME_LENGTH channelName))"

text \<open>On a value that is not a string one of the three methods is missing.\<close>

fun canonical_name :: "jsval \<Rightarrow> js_error + jstring" where
  "canonical_name (VStr s) = Inr (canonicalize s)"
| "canonical_name v = Inl TypeError"

subsection \<open>Percent-encoding and serialisation\<close>

text \<open>
  \<open>encodeURIComponent\<close> keeps letters, digits and \<open>- _ . ! ~ * ' ( )\<close>, and writes
  every other character as the bytes of its UTF-8 form, each as \<open>%XX\<close>. A surrogate
  without its partner makes it throw a \<open>URIError\<close>.
\<close>

definition uri_unreserved :: "16 word \<Rightarrow> bool" where
  "uri_unreserved c =
     ((0x41 \<le> c \<and> c \<le> 0x5A) \<or> (0x61 \<le> c \<and> c \<le> 0x7A) \<or> (0x30 \<le> c \<and> c \<le> 0x39)
      \<or> c \<in> set [0x2D, 0x5F, 0x2E, 0x21, 0x7E, 0x2A, 0x27, 0x28, 0x29])"

definition is_high_surrogate :: "16 word \<Rightarrow> bool" where
  "is_high_surrogate c = (0xD800 \<le> c \<and> c \<le> 0xDBFF)"

definition is_low_surrogate :: "16 word \<Rightarrow> bool" where
  "is_low_surrogate c = (0xDC00 \<le> c \<and> c \<le> 0xDFFF)"

definition pair_code_point :: "16 word \<Rightarrow> 16 word \<Rightarrow> nat" where
  "pair_code_point hi lo = 0x10000 + (unat hi - 0xD800) * 0x400 + (unat lo - 0xDC00)"

definition utf8 :: "nat \<Rightarrow> nat list" where
  "utf8 n =
     (if n < 0x80 then [n]
      else if n < 0x800 then [0xC0 + n div 0x40, 0x80 + n mod 0x40]
      else if n < 0x10000 then
        [0xE0 + n div 0x1000, 0x80 + (n div 0x40) mod 0x40, 0x80 + n mod 0x40]
      else
        [0xF0 + n div 0x40000, 0x80 + (n div 0x1000) mod 0x40,
         0x80 + (n div 0x40) mod 0x40, 0x80 + n mod 0x40])"

definition hex_upper :: "nat \<Rightarrow> 16 word" where
  "hex_upper d = of_nat (if d < 10 then 48 + d else 55 + d)"

definition hex_lower :: "nat \<Rightarrow> 16 word" where
  "hex_lower d = of_nat (if d < 10 then 48 + d else 87 + d)"

definition percent_utf8 :: "nat \<Rightarrow> jstring" where
  "percent_utf8 n = concat (map (\<lambda>b. [0x25, hex_upper (b div 16), hex_upper (b mod 16)]) (utf8 n))"

fun encode_units :: "jstring \<Rightarrow> js_error + jstring" where
  "encode_units [] = Inr []"
| "encode_units (c # cs) =
     (if uri_unreserved c then andThen (encode_units cs) (\<lambda>r. Inr (c # r))
      else if is_low_surrogate c then Inl URIError
      else if is_high_surrogate c then
        (case cs of
           [] \<Rightarrow> Inl URIError
         | d # ds \<Rightarrow>
             if is_low_surrogate d
             then andThen (encode_units ds) (\<lambda>r. Inr (percent_utf8 (pair_code_point c d) @ r))
             else Inl URIError)
      else andThen (encode_units cs) (\<lambda>r. Inr (percent_utf8 (unat c) @ r)))"

definition encodeURIComponent :: "jsval \<Rightarrow> js_error + jstring" where
  "encodeURIComponent v = encode_units (to_string v)"

text \<open>
  \<open>JSON.stringify\<close>. A string is quoted (0x22), with the quote, the backslash (0x5C)
  and the control characters escaped and a lone surrogate written as a four-digit
  escape; \<open>undefined\<close> has no text: it is \<open>null\<close> inside an array and its property is
  left out of an object.
\<close>

definition unicode_escape :: "16 word \<Rightarrow> jstring" where
  "unicode_escape c =
     [0x5C, 0x75] @ [hex_lower (unat c div 4096), hex_lower (unat c div 256 mod 16),
                   hex_lower (unat c div 16 mod 16), hex_lower (unat c mod 16)]"

fun quote_units :: "jstring \<Rightarrow> jstring" where
  "quote_units [] = []"
| "quote_units (c # cs) =
     (if c = 0x22 then [0x5C, 0x22] @ quote_units cs
      else if c = 0x5C then [0x5C, 0x5C] @ quote_units cs
      else if c = 0x08 then [0x5C, 0x62] @ quote_units cs
      else if c = 0x0C then [0x5C, 0x66] @ quote_units cs
      else if c = 0x0A then [0x5C, 0x6E] @ quote_units cs
      else if c = 0x0D then [0x5C, 0x72] @ quote_units cs
      else if c = 0x09 then [0x5C, 0x74] @ quote_units cs
      else if c < 0x20 \<or> is_low_surrogate c then unicode_escape c @ quote_units cs
      else if is_high_surrogate c then
        (case cs of
           [] \<Rightarrow> unicode_escape c
         | d # ds \<Rightarrow>
             if is_low_surrogate d then c # d # quote_units ds
             else unicode_escape c @ quote_units cs)
      else c # quote_units cs)"

definition json_quote :: "jstring \<Rightarrow> jstring" where
  "json_quote s = 0x22 # quote_units s @ [0x22]"

fun json_text :: "jsval \<Rightarrow> jstring option" where
  "json_text VUndefined = None"
| "json_text VNull = Some (str ''null'')"
| "json_text (VBool b) = Some (if b then str ''true'' else str ''false'')"
| "json_text (VNum n) = Some (int_to_string n)"
| "json_text (VStr s) = Some (json_quote s)"
| "json_text (VArr xs) =
     Some (str ''['' @
       join (str '','')
         (map (\<lambda>x. case json_text x of None \<Rightarrow> str ''null'' | Some t \<Rightarrow> t) xs)
       @ str '']'')"
| "json_text (VObj kvs) =
     Some (str ''{'' @
       join (str '','')
         (concat (map (\<lambda>kv. case json_text (snd kv) of
                               None \<Rightarrow> []
                             | Some t \<Rightarrow> [json_quote (fst kv) @ str '':'' @ t]) kvs))
       @ str ''}'')"

definition JSON_stringify :: "jsval \<Rightarrow> jsval" where
  "JSON_stringify v = (case json_text v of None \<Rightarrow> VUndefined | Some t \<Rightarrow> VStr t)"

text \<open>
  \<^verbatim>\<open>jsonToQueryString = function(json) {
    return '?' + Object.keys(json).map(function(key) {
      return encodeURIComponent(key) + '=' + encodeURIComponent(json[key]);
    }).join('&');
  }\<close>
\<close>

fun encode_pairs :: "(jstring \<times> jsval) list \<Rightarrow> jstring list \<Rightarrow> js_error + jstring list" where
  "encode_pairs json [] = Inr []"
| "encode_pairs json (key # keys) =
     andThen (encode_units key) (\<lambda>k.
     andThen (encodeURIComponent (case map_of json key of None \<Rightarrow> VUndefined | Some v \<Rightarrow> v)) (\<lambda>v.
     andThen (encode_pairs json keys) (\<lambda>rest.
       Inr ((k @ str ''='' @ v) # rest))))"

definition jsonToQueryString :: "(jstring \<times> jsval) list \<Rightarrow> js_error + jstring" where
  "jsonToQueryString json =
     andThen (encode_pairs json (map fst json)) (\<lambda>parts. Inr (str ''?'' @ join (str ''&'') parts))"

section \<open>The host: transport, configuration\<close>

text \<open>
  The host supplies \<open>http\<close> and \<open>constants\<close>. A request is what the script hands to
  \<open>http.request\<close> together with the argument of \<open>write\<close> (\<open>undefined\<close> when
  \<open>write()\<close> is called without one). A response is \<open>{status, body}\<close>; the body is
  kept as the value \<open>JSON.parse\<close> yields on it, or \<open>None\<close> when it is not JSON.
\<close>

record request =
  endpoint :: jstring
  http_method :: jstring
  path :: jstring
  headers :: "(jstring \<times> jstring) list"
  written :: jsval

record response =
  status :: int
  body :: "jsval option"

text \<open>
  The world outside the script: the constant \<open>Slack Token\<close>, the remote side (it answers
  a request knowing every request before it, or the transport throws), and the requests
  issued so far, oldest first.
\<close>

record world =
  token :: jsval
  respond :: "request list \<Rightarrow> request \<Rightarrow> js_error + response"
  sent :: "request list"

text \<open>\<open>http.request({...}).write(...)\<close>: blocks until the response is there.\<close>

definition http_write :: "request \<Rightarrow> world \<Rightarrow> (js_error + response) \<times> world" where
  "http_write req w = (respond w (sent w) req, w\<lparr>sent := sent w @ [req]\<rparr>)"

definition JSON_parse :: "response \<Rightarrow> js_error + jsval" where
  "JSON_parse r = (case body r of None \<Rightarrow> Inl SyntaxError | Some v \<Rightarrow> Inr v)"

text \<open>
  Two names for stating what a call does: the world once a request has gone out, and
  the parsed body a request is answered with.
\<close>

definition issued :: "world \<Rightarrow> request \<Rightarrow> world" where
  "issued w req = w\<lparr>sent := sent w @ [req]\<rparr>"

definition answer :: "world \<Rightarrow> request \<Rightarrow> js_error + jsval" where
  "answer w req = andThen (respond w (sent w) req) JSON_parse"

text \<open>
  \<open>!slackBody.ok\<close> on a parsed body: true for the failure envelope \<open>ok: false\<close>, and for
  a body without a truthy \<open>ok\<close>.
\<close>

definition not_ok :: "jsval \<Rightarrow> bool" where
  "not_ok slackBody =
     (case get_prop slackBody (str ''ok'') of Inl e \<Rightarrow> False | Inr ok \<Rightarrow> \<not> truthy ok)"

text \<open>The property \<open>k\<close> of an object, for stating results.\<close>

definition property :: "jsval \<Rightarrow> jstring \<Rightarrow> jsval" where
  "property v k = (case get_prop v k of Inl e \<Rightarrow> VUndefined | Inr x \<Rightarrow> x)"

text \<open>
  The outcome of a call: the value returned or the error thrown, and the world after it.
  A call that never returns has no outcome (\<open>None\<close>). The lines written with
  \<open>console.log\<close> are left out: they build a string and cannot throw.
\<close>

type_synonym 'a outcome = "(js_error + 'a) \<times> world"

section \<open>Slack.js\<close>

subsection \<open>getChannel\<close>

text \<open>
  The variables of the \<open>while (page)\<close> loop that live across iterations. \<open>page\<close> is
  true whenever the loop is entered again and \<open>limit\<close> is never assigned, so they are
  not part of the state.
\<close>

record scan =
  parms :: jstring
  cursor :: jsval
  found :: jsval

definition limit :: jsval where
  "limit = VNum 0"

text \<open>What one iteration ends with: \<open>return\<close> after the loop, or the next iteration.\<close>

datatype step = Return jsval | Again scan

text \<open>\<^verbatim>\<open>parms += (!!limit ? '&limit=' + limit : '');
parms += (!!cursor ? '&cursor=' + cursor : '');\<close>\<close>

definition next_parms :: "scan \<Rightarrow> jstring" where
  "next_parms s =
     (parms s @ (if truthy limit then str ''&limit='' @ to_string limit else []))
       @ (if truthy (cursor s) then str ''&cursor='' @ to_string (cursor s) else [])"

definition channels_list_request :: "world \<Rightarrow> scan \<Rightarrow> request" where
  "channels_list_request w s =
     \<lparr>endpoint = str ''Slack'', http_method = str ''GET'',
      path = str ''/api/channels.list?token='' @ to_string (token w) @ next_parms s,
      headers = [], written = VUndefined\<rparr>"

text \<open>
  \<^verbatim>\<open>for (var i in slackBody.channels) {
  if (slackBody.channels[i].name.toLowerCase() == channelName.toLowerCase()) {
    channelBody = slackBody.channels[i];
    break;
  }
}\<close>
  The last argument is \<open>channelBody\<close> before the loop; the result is \<open>channelBody\<close>
  after it.
\<close>

fun find_channel :: "jstring \<Rightarrow> jsval list \<Rightarrow> jsval \<Rightarrow> js_error + jsval" where
  "find_channel channelName [] channelBody = Inr channelBody"
| "find_channel channelName (c # cs) channelBody =
     andThen (get_prop c (str ''name'')) (\<lambda>n.
     andThen (lower_case_of n) (\<lambda>l.
       if l = toLowerCase channelName then Inr c
       else find_channel channelName cs channelBody))"

text \<open>
  The end of an iteration of \<open>getChannel\<close>:
  \<^verbatim>\<open>if ((null === channelBody) &&
  (typeof slackBody.response_metadata !== 'undefined') &&
  slackBody.response_metadata.next_cursor) {
  cursor = slackBody.response_metadata.next_cursor;
} else {
  page = false;
}\<close>
\<close>

definition channel_next :: "jsval \<Rightarrow> jstring \<Rightarrow> jsval \<Rightarrow> js_error + step" where
  "channel_next slackBody parms' channelBody =
     (if channelBody = VNull then
        andThen (get_prop slackBody (str ''response_metadata'')) (\<lambda>md.
          if md \<noteq> VUndefined then
            andThen (get_prop md (str ''next_cursor'')) (\<lambda>nc.
              if truthy nc
              then Inr (Again \<lparr>parms = parms', cursor = nc, found = channelBody\<rparr>)
              else Inr (Return channelBody))
          else Inr (Return channelBody))
      else Inr (Return channelBody))"

text \<open>One iteration, from the response on.\<close>

definition channel_page :: "jstring \<Rightarrow> scan \<Rightarrow> js_error + response \<Rightarrow> js_error + step" where
  "channel_page channelName s r =
     andThen r (\<lambda>slackResponse.
     andThen (JSON_parse slackResponse) (\<lambda>slackBody.
     andThen (get_prop slackBody (str ''ok'')) (\<lambda>ok.
       if \<not> truthy ok then Inr (Return (found s))
       else
         andThen (get_prop slackBody (str ''channels'')) (\<lambda>channels.
         andThen (find_channel channelName (for_in channels) (found s)) (\<lambda>channelBody.
           channel_next slackBody (next_parms s) channelBody)))))"

partial_function (option) getChannel_loop :: "jstring \<Rightarrow> scan \<Rightarrow> world \<Rightarrow> jsval outcome option"
where
  "getChannel_loop channelName s w =
     (case http_write (channels_list_request w s) w of
        (r, w') \<Rightarrow>
          (case channel_page channelName s r of
             Inl e \<Rightarrow> Some (Inl e, w')
           | Inr (Return v) \<Rightarrow> Some (Inr v, w')
           | Inr (Again s') \<Rightarrow> getChannel_loop channelName s' w'))"

declare getChannel_loop.simps [code]

definition getChannel :: "jsval \<Rightarrow> world \<Rightarrow> jsval outcome option" where
  "getChannel channelName w =
     (case canonical_name channelName of
        Inl e \<Rightarrow> Some (Inl e, w)
      | Inr name \<Rightarrow>
          getChannel_loop name \<lparr>parms = [], cursor = VUndefined, found = VNull\<rparr> w)"

text \<open>
  Names for the pages of a listing, to state what the loop does with them: a body with
  a truthy \<open>ok\<close>; the cursor it names; the loop variables a page without a match hands
  to the next iteration; a page of channels without a channel of the given name; and
  the pages that the next requests of the loop, one after the other, are answered with.
\<close>

definition is_ok :: "jsval \<Rightarrow> bool" where
  "is_ok slackBody =
     (case get_prop slackBody (str ''ok'') of Inl e \<Rightarrow> False | Inr ok \<Rightarrow> truthy ok)"

definition next_cursor_of :: "jsval \<Rightarrow> jsval" where
  "next_cursor_of slackBody =
     property (property slackBody (str ''response_metadata'')) (str ''next_cursor'')"

definition next_scan :: "scan \<Rightarrow> jsval \<Rightarrow> scan" where
  "next_scan s slackBody =
     \<lparr>parms = next_parms s, cursor = next_cursor_of slackBody, found = VNull\<rparr>"

definition no_match :: "jstring \<Rightarrow> jsval \<Rightarrow> bool" where
  "no_match channelName slackBody =
     (find_channel channelName (for_in (property slackBody (str ''channels''))) VNull
        = Inr VNull)"

fun served :: "world \<Rightarrow> scan \<Rightarrow> jsval list \<Rightarrow> bool" where
  "served w s [] = True"
| "served w s (p # ps) =
     (answer w (channels_list_request w s) = Inr p
      \<and> served (issued w (channels_list_request w s)) (next_scan s p) ps)"

subsection \<open>getUserInfo\<close>

definition users_list_request :: "world \<Rightarrow> scan \<Rightarrow> request" where
  "users_list_request w s =
     \<lparr>endpoint = str ''Slack'', http_method = str ''GET'',
      path = str ''/api/users.list?token='' @ to_string (token w) @ next_parms s,
      headers = [], written = VUndefined\<rparr>"

text \<open>
  \<^verbatim>\<open>for (var i in slackBody.members) {
  if (slackBody.members[i].profile.display_name.toLowerCase() == username.toLowerCase()
      || slackBody.members[i].name.toLowerCase() == username.toLowerCase()) {
    slackMember = slackBody.members[i];
    break;
  }
}\<close>
\<close>

fun find_member :: "jsval \<Rightarrow> jsval list \<Rightarrow> jsval \<Rightarrow> js_error + jsval" where
  "find_member username [] slackMember = Inr slackMember"
| "find_member username (m # ms) slackMember =
     andThen (get_prop m (str ''profile'')) (\<lambda>profile.
     andThen (get_prop profile (str ''display_name'')) (\<lambda>display_name.
     andThen (lower_case_of display_name) (\<lambda>d.
     andThen (lower_case_of username) (\<lambda>u.
       if d = u then Inr m
       else
         andThen (get_prop m (str ''name'')) (\<lambda>name.
         andThen (lower_case_of name) (\<lambda>n.
         andThen (lower_case_of username) (\<lambda>u'.
           if n = u' then Inr m
           else find_member username ms slackMember)))))))"

text \<open>
  The end of an iteration of \<open>getUserInfo\<close>; \<open>slackMember\<close> is not looked at:
  \<^verbatim>\<open>if (slackBody.response_metadata.next_cursor) {
  cursor = slackBody.response_metadata.next_cursor;
} else {
  page = false;
}\<close>
\<close>

definition user_next :: "jsval \<Rightarrow> jstring \<Rightarrow> jsval \<Rightarrow> js_error + step" where
  "user_next slackBody parms' slackMember =
     andThen (get_prop slackBody (str ''response_metadata'')) (\<lambda>md.
     andThen (get_prop md (str ''next_cursor'')) (\<lambda>nc.
       if truthy nc
       then Inr (Again \<lparr>parms = parms', cursor = nc, found = slackMember\<rparr>)
       else Inr (Return slackMember)))"

definition user_page :: "jsval \<Rightarrow> scan \<Rightarrow> js_error + response \<Rightarrow> js_error + step" where
  "user_page username s r =
     andThen r (\<lambda>slackResponse.
     andThen (JSON_parse slackResponse) (\<lambda>slackBody.
     andThen (get_prop slackBody (str ''ok'')) (\<lambda>ok.
       if \<not> truthy ok then Inr (Return (found s))
       else
         andThen (get_prop slackBody (str ''members'')) (\<lambda>members.
         andThen (find_member username (for_in members) (found s)) (\<lambda>slackMember.
           user_next slackBody (next_parms s) slackMember)))))"

partial_function (option) getUserInfo_loop :: "jsval \<Rightarrow> scan \<Rightarrow> world \<Rightarrow> jsval outcome option"
where
  "getUserInfo_loop username s w =
     (case http_write (users_list_request w s) w of
        (r, w') \<Rightarrow>
          (case user_page username s r of
             Inl e \<Rightarrow> Some (Inl e, w')
           | Inr (Return v) \<Rightarrow> Some (Inr v, w')
           | Inr (Again s') \<Rightarrow> getUserInfo_loop username s' w'))"

declare getUserInfo_loop.simps [code]

definition getUserInfo :: "jsval \<Rightarrow> world \<Rightarrow> jsval outcome option" where
  "getUserInfo username w =
     getUserInfo_loop username \<lparr>parms = [], cursor = VUndefined, found = VNull\<rparr> w"

subsection \<open>createChannel, archiveChannel, getRoomHistory\<close>

definition channels_create_request :: "world \<Rightarrow> jstring \<Rightarrow> request" where
  "channels_create_request w channelName =
     \<lparr>endpoint = str ''Slack'', http_method = str ''POST'',
      path = str ''/api/channels.create?token='' @ to_string (token w)
               @ str ''&name='' @ channelName,
      headers = [], written = VUndefined\<rparr>"

text \<open>
  \<^verbatim>\<open>if (slackBody.error == 'name_taken') {
  channelBody = this.getChannel(channelName);
} else {
  channelBody = slackBody.channel;
}
return channelBody;\<close>
\<close>

definition createChannel :: "jsval \<Rightarrow> world \<Rightarrow> jsval outcome option" where
  "createChannel channelName w =
     (case canonical_name channelName of
        Inl e \<Rightarrow> Some (Inl e, w)
      | Inr name \<Rightarrow>
          (case http_write (channels_create_request w name) w of
             (r, w') \<Rightarrow>
               (case andThen r JSON_parse of
                  Inl e \<Rightarrow> Some (Inl e, w')
                | Inr slackBody \<Rightarrow>
                    (case get_prop slackBody (str ''error'') of
                       Inl e \<Rightarrow> Some (Inl e, w')
                     | Inr err \<Rightarrow>
                         if loose_eq_literal err (str ''name_taken'')
                         then getChannel (VStr name) w'
                         else Some (get_prop slackBody (str ''channel''), w')))))"

definition channels_archive_request :: "world \<Rightarrow> jsval \<Rightarrow> request" where
  "channels_archive_request w channel_id =
     \<lparr>endpoint = str ''Slack'', http_method = str ''GET'',
      path = str ''/api/channels.archive?token='' @ to_string (token w)
               @ str ''&channel='' @ to_string channel_id,
      headers = [], written = VUndefined\<rparr>"

text \<open>
  \<open>archiveChannel\<close> reads \<open>channel.id\<close> with no test of \<open>channel\<close>, parses the response
  and returns nothing (\<open>undefined\<close>).
\<close>

definition archiveChannel :: "jsval \<Rightarrow> world \<Rightarrow> jsval outcome option" where
  "archiveChannel channelName w =
     (case canonical_name channelName of
        Inl e \<Rightarrow> Some (Inl e, w)
      | Inr name \<Rightarrow>
          (case getChannel (VStr name) w of
             None \<Rightarrow> None
           | Some (Inl e, w') \<Rightarrow> Some (Inl e, w')
           | Some (Inr channel, w') \<Rightarrow>
               (case get_prop channel (str ''id'') of
                  Inl e \<Rightarrow> Some (Inl e, w')
                | Inr channel_id \<Rightarrow>
                    (case http_write (channels_archive_request w' channel_id) w' of
                       (r, w'') \<Rightarrow>
                         Some (andThen (andThen r JSON_parse) (\<lambda>slackBody. Inr VUndefined),
                               w'')))))"

text \<open>
  \<^verbatim>\<open>parms += '&channel=' + channel.id;
parms += (!!count ? '&count=' + count : '');
parms += (!!latest ? '&latest=' + latest : '');
parms += (!!oldest ? '&oldest=' + oldest : '');\<close>
\<close>

definition channels_history_request ::
  "world \<Rightarrow> jsval \<Rightarrow> jsval \<Rightarrow> jsval \<Rightarrow> jsval \<Rightarrow> request" where
  "channels_history_request w channel_id count latest oldest =
     \<lparr>endpoint = str ''Slack'', http_method = str ''GET'',
      path = str ''/api/channels.history?token='' @ to_string (token w)
               @ str ''&channel='' @ to_string channel_id
               @ (if truthy count then str ''&count='' @ to_string count else [])
               @ (if truthy latest then str ''&latest='' @ to_string latest else [])
               @ (if truthy oldest then str ''&oldest='' @ to_string oldest else []),
      headers = [], written = VUndefined\<rparr>"

definition history_result :: "js_error + response \<Rightarrow> js_error + jsval" where
  "history_result r =
     andThen (andThen r JSON_parse) (\<lambda>slackBody.
     andThen (get_prop slackBody (str ''ok'')) (\<lambda>ok.
       if \<not> truthy ok then Inr VNull
       else get_prop slackBody (str ''messages'')))"

definition getRoomHistory ::
  "jsval \<Rightarrow> jsval \<Rightarrow> jsval \<Rightarrow> jsval \<Rightarrow> world \<Rightarrow> jsval outcome option" where
  "getRoomHistory channelName count latest oldest w =
     (case getChannel channelName w of
        None \<Rightarrow> None
      | Some (Inl e, w') \<Rightarrow> Some (Inl e, w')
      | Some (Inr channel, w') \<Rightarrow>
          if channel = VNull then Some (Inr VNull, w')
          else
            (case get_prop channel (str ''id'') of
               Inl e \<Rightarrow> Some (Inl e, w')
             | Inr channel_id \<Rightarrow>
                 (case http_write (channels_history_request w' channel_id count latest oldest) w' of
                    (r, w'') \<Rightarrow> Some (history_result r, w''))))"

subsection \<open>getTeam\<close>

text \<open>
  \<^verbatim>\<open>var teamBody = null;
...
if (body.ok) {
  teamBody = body.team;
}
return teamBody;\<close>
\<close>

definition team_info_request :: "world \<Rightarrow> request" where
  "team_info_request w =
     \<lparr>endpoint = str ''Slack'', http_method = str ''GET'',
      path = str ''/team.info?token='' @ to_string (token w),
      headers = [], written = VUndefined\<rparr>"

definition getTeam :: "world \<Rightarrow> jsval outcome" where
  "getTeam w =
     (case http_write (team_info_request w) w of
        (r, w') \<Rightarrow>
          (andThen (andThen r JSON_parse) (\<lambda>body.
           andThen (get_prop body (str ''ok'')) (\<lambda>ok.
             if truthy ok then get_prop body (str ''team'') else Inr VNull)),
           w'))"

subsection \<open>postMessage, postMessageWithFields\<close>

text \<open>
  The payload of \<open>postMessage\<close> is an object the caller built; the function assigns to
  its properties, so it returns the object as the caller finds it afterwards, next to the
  outcome. An assignment \<open>o.k = v\<close> replaces the property where it stands or appends it.
\<close>

definition payload_attachments :: "(jstring \<times> jsval) list \<Rightarrow> jsval" where
  "payload_attachments payload =
     (case map_of payload (str ''attachments'') of None \<Rightarrow> VUndefined | Some v \<Rightarrow> v)"

text \<open>
  \<^verbatim>\<open>payload.token = constants["Slack Token"];
if (payload.attachments) {
  payload.attachments = JSON.stringify(payload.attachments);
}\<close>
\<close>

definition prepare_payload :: "world \<Rightarrow> (jstring \<times> jsval) list \<Rightarrow> (jstring \<times> jsval) list" where
  "prepare_payload w payload =
     (let payload1 = AList.update (str ''token'') (token w) payload
      in if truthy (payload_attachments payload1)
         then AList.update (str ''attachments'')
                (JSON_stringify (payload_attachments payload1)) payload1
         else payload1)"

definition post_result :: "js_error + response \<Rightarrow> js_error + jsval" where
  "post_result r =
     andThen (andThen r JSON_parse) (\<lambda>slackBody.
     andThen (get_prop slackBody (str ''ok'')) (\<lambda>ok.
       if \<not> truthy ok then Inr VNull else Inr slackBody))"

text \<open>
  The three calls that post a payload: the path is a fixed prefix and the query string,
  and the payload is handed to \<open>write\<close>.
\<close>

definition post_request :: "jstring \<Rightarrow> jstring \<Rightarrow> (jstring \<times> jsval) list \<Rightarrow> request" where
  "post_request prefix qs payload =
     \<lparr>endpoint = str ''Slack'', http_method = str ''POST'', path = prefix @ qs,
      headers = [], written = VObj payload\<rparr>"

definition postMessage ::
  "(jstring \<times> jsval) list \<Rightarrow> world \<Rightarrow> (js_error + jsval) \<times> (jstring \<times> jsval) list \<times> world" where
  "postMessage payload w =
     (let payload' = prepare_payload w payload
      in case jsonToQueryString payload' of
           Inl e \<Rightarrow> (Inl e, payload', w)
         | Inr qs \<Rightarrow>
             (case http_write (post_request (str ''/chat.postMessage'') qs payload') w of
                (r, w') \<Rightarrow> (post_result r, payload', w')))"

text \<open>
  \<open>postMessageWithFields(text, channelName, slackUser)\<close>; \<open>text\<close> is the text to
  display, a string.
  \<^verbatim>\<open>payload.channel = channelName.id;
if (slackUser) {
  payload.text = "<@" + slackUser.id + ">";
}
if (text) {
  payload.text += text;
}\<close>
\<close>

definition mention_payload ::
  "world \<Rightarrow> jstring \<Rightarrow> jsval \<Rightarrow> jsval \<Rightarrow> js_error + (jstring \<times> jsval) list" where
  "mention_payload w text channelName slackUser =
     andThen (get_prop channelName (str ''id'')) (\<lambda>channel_id.
     andThen (if truthy slackUser
              then andThen (get_prop slackUser (str ''id'')) (\<lambda>user_id.
                     Inr (AList.update (str ''text'')
                            (VStr (str ''<@'' @ to_string user_id @ str ''>''))
                            (AList.update (str ''channel'') channel_id [])))
              else Inr (AList.update (str ''channel'') channel_id [])) (\<lambda>payload1.
       let payload2 =
             (if text \<noteq> []
              then AList.update (str ''text'')
                     (VStr (to_string (case map_of payload1 (str ''text'') of
                                         None \<Rightarrow> VUndefined | Some v \<Rightarrow> v) @ text))
                     payload1
              else payload1)
       in Inr (AList.update (str ''token'') (token w) payload2)))"

text \<open>
  The payload this builds for the text \<open>" already in channel"\<close>, a channel and a user
  with the given identifiers: the message that mentions the user.
\<close>

definition reminder :: "world \<Rightarrow> jsval \<Rightarrow> jsval \<Rightarrow> (jstring \<times> jsval) list" where
  "reminder w channel_id user_id =
     [(str ''channel'', channel_id),
      (str ''text'', VStr (str ''<@'' @ to_string user_id @ str ''> already in channel'')),
      (str ''token'', token w)]"

definition postMessageWithFields :: "jstring \<Rightarrow> jsval \<Rightarrow> jsval \<Rightarrow> world \<Rightarrow> jsval outcome" where
  "postMessageWithFields text channelName slackUser w =
     (case andThen (mention_payload w text channelName slackUser) (\<lambda>payload.
             andThen (jsonToQueryString payload) (\<lambda>qs. Inr (payload, qs))) of
        Inl e \<Rightarrow> (Inl e, w)
      | Inr (payload, qs) \<Rightarrow>
          (case http_write (post_request (str ''/api/chat.postMessage'') qs payload) w of
             (r, w') \<Rightarrow> (post_result r, w')))"

subsection \<open>inviteToChannel, channelInvite\<close>

text \<open>
  The two resolutions of \<open>inviteToChannel\<close>. \<open>Inr None\<close> stands for its
  \<open>return null\<close>; \<open>Inr (Some v)\<close> is the value of \<open>channelId\<close> (of \<open>userId\<close>) the
  function goes on with.
  \<^verbatim>\<open>if (!channelId) {
  channel = this.getChannel(channelName);
  if (null !== channel) {
    channelId = channel.channel_name;
  } else {
    return null;
  }
}
if (!userId) {
  userId = this.getUserInfo(userName);
  if (null === userId) {
    return null;
  }
}\<close>
\<close>

definition resolve_channelId :: "jsval \<Rightarrow> jsval \<Rightarrow> world \<Rightarrow> (jsval option) outcome option" where
  "resolve_channelId channelName channelId w =
     (if \<not> truthy channelId then
        (case getChannel channelName w of
           None \<Rightarrow> None
         | Some (Inl e, w') \<Rightarrow> Some (Inl e, w')
         | Some (Inr channel, w') \<Rightarrow>
             if channel \<noteq> VNull
             then Some (andThen (get_prop channel (str ''channel_name'')) (\<lambda>v. Inr (Some v)), w')
             else Some (Inr None, w'))
      else Some (Inr (Some channelId), w))"

definition resolve_userId :: "jsval \<Rightarrow> jsval \<Rightarrow> world \<Rightarrow> (jsval option) outcome option" where
  "resolve_userId userName userId w =
     (if \<not> truthy userId then
        (case getUserInfo userName w of
           None \<Rightarrow> None
         | Some (Inl e, w') \<Rightarrow> Some (Inl e, w')
         | Some (Inr user, w') \<Rightarrow>
             if user = VNull then Some (Inr None, w') else Some (Inr (Some user), w'))
      else Some (Inr (Some userId), w))"

definition channels_invite_request :: "world \<Rightarrow> jsval \<Rightarrow> jsval \<Rightarrow> request" where
  "channels_invite_request w channelId userId =
     \<lparr>endpoint = str ''Slack'', http_method = str ''POST'',
      path = str ''/api/channels.invite?token='' @ to_string (token w)
               @ str ''&channel='' @ to_string channelId
               @ str ''&user='' @ to_string userId,
      headers = [(str ''Content-Type'', str ''application/json'')],
      written = VUndefined\<rparr>"

text \<open>\<open>inviteToChannel\<close> returns the response as the host gave it, or \<open>null\<close> (\<open>None\<close>).\<close>

definition inviteToChannel ::
  "jsval \<Rightarrow> jsval \<Rightarrow> jsval \<Rightarrow> jsval \<Rightarrow> world \<Rightarrow> (response option) outcome option" where
  "inviteToChannel userName channelName userId channelId w =
     (case resolve_channelId channelName channelId w of
        None \<Rightarrow> None
      | Some (Inl e, w1) \<Rightarrow> Some (Inl e, w1)
      | Some (Inr None, w1) \<Rightarrow> Some (Inr None, w1)
      | Some (Inr (Some channelId'), w1) \<Rightarrow>
          (case resolve_userId userName userId w1 of
             None \<Rightarrow> None
           | Some (Inl e, w2) \<Rightarrow> Some (Inl e, w2)
           | Some (Inr None, w2) \<Rightarrow> Some (Inr None, w2)
           | Some (Inr (Some userId'), w2) \<Rightarrow>
               (case http_write (channels_invite_request w2 channelId' userId') w2 of
                  (r, w3) \<Rightarrow> Some (andThen r (\<lambda>slackResponse. Inr (Some slackResponse)), w3))))"

text \<open>
  \<open>channelInvite(slackUser, slackChannel)\<close>.
  \<^verbatim>\<open>payload.channel = slackChannel.id;
payload.user = slackUser.id;
payload.token = constants["Slack Token"];\<close>
\<close>

definition invite_payload :: "world \<Rightarrow> jsval \<Rightarrow> jsval \<Rightarrow> js_error + (jstring \<times> jsval) list" where
  "invite_payload w slackUser slackChannel =
     andThen (get_prop slackChannel (str ''id'')) (\<lambda>channel_id.
     andThen (get_prop slackUser (str ''id'')) (\<lambda>user_id.
       Inr (AList.update (str ''token'') (token w)
              (AList.update (str ''user'') user_id
                (AList.update (str ''channel'') channel_id [])))))"

text \<open>The payload this builds from the two identifiers.\<close>

definition invitation :: "world \<Rightarrow> jsval \<Rightarrow> jsval \<Rightarrow> (jstring \<times> jsval) list" where
  "invitation w channel_id user_id =
     [(str ''channel'', channel_id), (str ''user'', user_id), (str ''token'', token w)]"

text \<open>
  What \<open>channelInvite\<close> does with a response that is not \<open>ok\<close>: \<open>True\<close> when it goes on
  to \<open>postMessageWithFields\<close>, \<open>False\<close> when it sets \<open>slackBody = null\<close>.
  \<^verbatim>\<open>if (slackBody.error == "already_in_channel" && slackUser.name.toLowerCase() !== "xmatters") {
  slackBody = this.postMessageWithFields(" already in channel", slackChannel, slackUser);
} else if (slackUser.name.toLowerCase() == "xmatters") {
  slackBody = null;
} else {
  slackBody = null;
}\<close>
\<close>

definition reminds_user :: "jsval \<Rightarrow> jsval \<Rightarrow> js_error + bool" where
  "reminds_user slackBody slackUser =
     andThen (get_prop slackBody (str ''error'')) (\<lambda>err.
     andThen (if loose_eq_literal err (str ''already_in_channel'')
              then andThen (get_prop slackUser (str ''name'')) (\<lambda>name.
                   andThen (lower_case_of name) (\<lambda>l. Inr (l \<noteq> str ''xmatters'')))
              else Inr False) (\<lambda>first.
       if first then Inr True
       else
         andThen (get_prop slackUser (str ''name'')) (\<lambda>name.
         andThen (lower_case_of name) (\<lambda>l.
           if l = str ''xmatters'' then Inr False else Inr False))))"

text \<open>
  The response of the invite call, read: the parsed body, and \<open>None\<close> when it is
  \<open>ok\<close>, else what \<open>reminds_user\<close> says.
\<close>

definition invite_reply :: "js_error + response \<Rightarrow> jsval \<Rightarrow> js_error + jsval \<times> bool option" where
  "invite_reply r slackUser =
     andThen (andThen r JSON_parse) (\<lambda>slackBody.
     andThen (get_prop slackBody (str ''ok'')) (\<lambda>ok.
       if \<not> truthy ok
       then andThen (reminds_user slackBody slackUser) (\<lambda>b. Inr (slackBody, Some b))
       else Inr (slackBody, None)))"

definition channelInvite :: "jsval \<Rightarrow> jsval \<Rightarrow> world \<Rightarrow> jsval outcome" where
  "channelInvite slackUser slackChannel w =
     (case andThen (invite_payload w slackUser slackChannel) (\<lambda>payload.
             andThen (jsonToQueryString payload) (\<lambda>qs. Inr (payload, qs))) of
        Inl e \<Rightarrow> (Inl e, w)
      | Inr (payload, qs) \<Rightarrow>
          (case http_write (post_request (str ''/api/channels.invite'') qs payload) w of
             (r, w') \<Rightarrow>
               (case invite_reply r slackUser of
                  Inl e \<Rightarrow> (Inl e, w')
                | Inr (slackBody, None) \<Rightarrow> (Inr slackBody, w')
                | Inr (slackBody, Some True) \<Rightarrow>
                    postMessageWithFields (str '' already in channel'') slackChannel slackUser w'
                | Inr (slackBody, Some False) \<Rightarrow> (Inr VNull, w'))))"

section \<open>Scenarios\<close>

text \<open>
  Small worlds to run the library in. \<open>slack_stub\<close> is a remote side that answers by
  the path of the request alone: with status 200 and the body listed for that path, or
  with status 404 and a body that is not JSON. The token is \<open>T\<close> and nothing has been
  sent.
\<close>

definition slack_stub :: "(jstring \<times> jsval) list \<Rightarrow> world" where
  "slack_stub routes =
     \<lparr>token = VStr (str ''T''),
      respond = (\<lambda>before req. case map_of routes (path req) of
                   None \<Rightarrow> Inr \<lparr>status = 404, body = None\<rparr>
                 | Some b \<Rightarrow> Inr \<lparr>status = 200, body = Some b\<rparr>),
      sent = []\<rparr>"

text \<open>A page of a listing: \<open>{ok: true, <field>: items, response_metadata: {next_cursor}}\<close>.\<close>

definition listing :: "jstring \<Rightarrow> jsval list \<Rightarrow> jstring \<Rightarrow> jsval" where
  "listing field items next_cursor =
     VObj [(str ''ok'', VBool True), (field, VArr items),
           (str ''response_metadata'', VObj [(str ''next_cursor'', VStr next_cursor)])]"

definition channel_record :: "jstring \<Rightarrow> jstring \<Rightarrow> jsval" where
  "channel_record i n = VObj [(str ''id'', VStr i), (str ''name'', VStr n)]"

definition member_record :: "jstring \<Rightarrow> jstring \<Rightarrow> jstring \<Rightarrow> jsval" where
  "member_record i n d =
     VObj [(str ''id'', VStr i), (str ''name'', VStr n),
           (str ''profile'', VObj [(str ''display_name'', VStr d)])]"

text \<open>The failure envelope \<open>{ok: false, error: code}\<close>.\<close>

definition failure :: "jstring \<Rightarrow> jsval" where
  "failure code = VObj [(str ''ok'', VBool False), (str ''error'', VStr code)]"

text \<open>The name of 21 capital letters I with dot above.\<close>

definition dotted_name :: jstring where
  "dotted_name = replicate 21 0x130"

text \<open>Two pages of users; \<open>bob\<close> is on the first, which names a next page.\<close>

definition users_two_pages :: world where
  "users_two_pages = slack_stub
     [(str ''/api/users.list?token=T'',
         listing (str ''members'')
           [member_record (str ''U1'') (str ''bob'') (str ''Bob'')] (str ''c1'')),
      (str ''/api/users.list?token=T&cursor=c1'',
         listing (str ''members'')
           [member_record (str ''U2'') (str ''eve'') (str ''Eve'')] [])]"

text \<open>The same first page; the request for the second page fails.\<close>

definition users_then_failure :: world where
  "users_then_failure = slack_stub
     [(str ''/api/users.list?token=T'',
         listing (str ''members'')
           [member_record (str ''U1'') (str ''bob'') (str ''Bob'')] (str ''c1'')),
      (str ''/api/users.list?token=T&cursor=c1'', failure (str ''ratelimited''))]"

text \<open>
  A workspace with the channel \<open>my-room\<close> on the second page of channels and the users
  \<open>bob\<close> and \<open>xMatters\<close>. Creating \<open>my-room\<close> fails with \<open>name_taken\<close>, the history of
  \<open>C1\<close> fails with \<open>not_in_channel\<close>, inviting either user to \<open>C1\<close> fails with
  \<open>already_in_channel\<close>, and a message with a mention of \<open>U1\<close> is accepted.
\<close>

definition workspace :: world where
  "workspace = slack_stub
     [(str ''/api/channels.list?token=T'',
         listing (str ''channels'') [channel_record (str ''C0'') (str ''general'')] (str ''c1'')),
      (str ''/api/channels.list?token=T&cursor=c1'',
         listing (str ''channels'') [channel_record (str ''C1'') (str ''my-room'')] []),
      (str ''/api/users.list?token=T'',
         listing (str ''members'')
           [member_record (str ''U1'') (str ''bob'') (str ''Bob''),
            member_record (str ''U9'') (str ''xMatters'') (str ''xM'')] []),
      (str ''/api/channels.create?token=T&name=my-room'', failure (str ''name_taken'')),
      (str ''/api/channels.create?token=T&name=new-room'',
         VObj [(str ''ok'', VBool True),
               (str ''channel'', channel_record (str ''C2'') (str ''new-room''))]),
      (str ''/api/channels.history?token=T&channel=C1'', failure (str ''not_in_channel'')),
      (str ''/api/channels.invite?channel=C1&user=U1&token=T'',
         failure (str ''already_in_channel'')),
      (str ''/api/channels.invite?channel=C1&user=U9&token=T'',
         failure (str ''already_in_channel'')),
      (str ''/api/chat.postMessage?channel=C1&text=%3C%40U1%3E%20already%20in%20channel&token=T'',
         VObj [(str ''ok'', VBool True), (str ''ts'', VStr (str ''1.5''))])]"

text \<open>What is observed of an outcome: the result and the paths requested, in order.\<close>

definition observed :: "'a outcome \<Rightarrow> (js_error + 'a) \<times> jstring list" where
  "observed out = (fst out, map path (sent (snd out)))"

text \<open>The same with the requests themselves.\<close>

definition trace :: "'a outcome \<Rightarrow> (js_error + 'a) \<times> request list" where
  "trace out = (fst out, sent (snd out))"

text \<open>The loop variables on entry, and on the second iteration after the cursor \<open>c1\<close>.\<close>

definition first_page :: scan where
  "first_page = \<lparr>parms = [], cursor = VUndefined, found = VNull\<rparr>"

definition second_page :: scan where
  "second_page = \<lparr>parms = [], cursor = VStr (str ''c1''), found = VNull\<rparr>"

section \<open>Channel names: properties\<close>

lemma is_upper_bounds: "is_upper c \<Longrightarrow> 65 \<le> unat c \<and> unat c \<le> 222"
  unfolding is_upper_def word_le_nat_alt by simp linarith

lemma is_upper_unat:
  "is_upper c =
     (65 \<le> unat c \<and> unat c \<le> 90 \<or> 192 \<le> unat c \<and> unat c \<le> 214
      \<or> 216 \<le> unat c \<and> unat c \<le> 222)"
  unfolding is_upper_def word_le_nat_alt by simp

lemma is_space_bounds: "is_space c \<Longrightarrow> unat c \<le> 32 \<or> unat c = 160 \<or> 5760 \<le> unat c"
  unfolding is_space_def word_le_nat_alt word_unat_eq_iff by simp linarith

lemma unat_small_letter: "is_upper c \<Longrightarrow> unat (c + 0x20) = unat c + 32"
  using is_upper_bounds [of c] by (simp add: unat_word_ariths)

lemma small_letter_not_space:
  assumes "is_upper c"
  shows "\<not> is_space (c + 0x20)"
proof
  assume "is_space (c + 0x20)"
  from is_space_bounds [OF this] unat_small_letter [OF assms] assms
  show False unfolding is_upper_unat by linarith
qed

lemma small_letter_not_upper:
  assumes "is_upper c"
  shows "\<not> is_upper (c + 0x20)"
proof
  assume "is_upper (c + 0x20)"
  then have
    "65 \<le> unat c + 32 \<and> unat c + 32 \<le> 90 \<or> 192 \<le> unat c + 32 \<and> unat c + 32 \<le> 214
      \<or> 216 \<le> unat c + 32 \<and> unat c + 32 \<le> 222"
    unfolding is_upper_unat [of "c + 0x20"] unat_small_letter [OF assms] .
  with assms show False unfolding is_upper_unat [of c] by linarith
qed

lemma small_letter_not_dotted:
  assumes "is_upper c"
  shows "c + 0x20 \<noteq> 0x130"
proof
  assume "c + 0x20 = 0x130"
  then have "unat (c + 0x20) = 304" by simp
  with unat_small_letter [OF assms] is_upper_bounds [OF assms] show False by linarith
qed

lemma lower_unit_cases:
  "d \<in> set (lower_unit c) \<Longrightarrow>
     is_upper c \<and> d = c + 0x20 \<or> c = 0x130 \<and> (d = 0x69 \<or> d = 0x307)
     \<or> d = c \<and> \<not> is_upper c \<and> c \<noteq> 0x130"
  by (auto simp: lower_unit_def split: if_splits)

lemma dot_units:
  "\<not> is_space (0x69 :: 16 word)" "\<not> is_space (0x307 :: 16 word)"
  "\<not> is_upper (0x69 :: 16 word)" "\<not> is_upper (0x307 :: 16 word)"
  by (simp_all add: is_space_def is_upper_def)

lemma lower_unit_not_space: "\<not> is_space c \<Longrightarrow> d \<in> set (lower_unit c) \<Longrightarrow> \<not> is_space d"
  using lower_unit_cases [of d c] small_letter_not_space [of c] dot_units by blast

lemma lower_unit_not_upper: "d \<in> set (lower_unit c) \<Longrightarrow> \<not> is_upper d"
  using lower_unit_cases [of d c] small_letter_not_upper [of c] dot_units by blast

lemma lower_unit_not_dotted: "d \<in> set (lower_unit c) \<Longrightarrow> d \<noteq> 0x130"
  using lower_unit_cases [of d c] small_letter_not_dotted [of c] by auto

lemma length_collapse_ws: "length (collapse_ws s) \<le> length s"
proof (induction s rule: collapse_ws.induct)
  case 1
  show ?case by simp
next
  case (2 c cs)
  have "length (dropWhile is_space cs) \<le> length cs"
    by (rule length_dropWhile_le)
  with 2 show ?case by auto
qed

lemma collapse_ws_no_space: "c \<in> set (collapse_ws s) \<Longrightarrow> \<not> is_space c"
proof (induction s rule: collapse_ws.induct)
  case 1
  then show ?case by simp
next
  case (2 d ds)
  then show ?case by (auto simp: is_space_def split: if_splits)
qed

lemma collapse_ws_units: "c \<in> set (collapse_ws s) \<Longrightarrow> c = 0x2D \<or> c \<in> set s"
proof (induction s rule: collapse_ws.induct)
  case 1
  then show ?case by simp
next
  case (2 d ds)
  then show ?case by (auto split: if_splits dest: set_dropWhileD)
qed

lemma collapse_ws_fixed: "(\<And>c. c \<in> set s \<Longrightarrow> \<not> is_space c) \<Longrightarrow> collapse_ws s = s"
  by (induction s) auto

lemma toLowerCase_fixed:
  "(\<And>c. c \<in> set s \<Longrightarrow> \<not> is_upper c \<and> c \<noteq> 0x130) \<Longrightarrow> toLowerCase s = s"
  by (induction s) (auto simp: toLowerCase_def lower_unit_def)

lemma length_toLowerCase: "0x130 \<notin> set s \<Longrightarrow> length (toLowerCase s) = length s"
  by (induction s) (auto simp: toLowerCase_def lower_unit_def)

text \<open>
  Whatever the name, its canonical form has no white space, no capital letter of the
  table and no U+0130.
\<close>

lemma canonicalize_no_space: "c \<in> set (canonicalize n) \<Longrightarrow> \<not> is_space c"
  unfolding canonicalize_def toLowerCase_def
  by (auto dest: collapse_ws_no_space lower_unit_not_space)

lemma canonicalize_no_upper: "c \<in> set (canonicalize n) \<Longrightarrow> \<not> is_upper c"
  unfolding canonicalize_def toLowerCase_def
  by (auto dest: lower_unit_not_upper)

lemma canonicalize_no_dotted: "c \<in> set (canonicalize n) \<Longrightarrow> c \<noteq> 0x130"
  unfolding canonicalize_def toLowerCase_def
  by (auto dest: lower_unit_not_dotted)

text \<open>
  A name without U+0130 among its first 21 code units has a canonical form of at most 21
  code units.
\<close>

lemma canonicalize_length:
  assumes "0x130 \<notin> set (take MAX_CHANNEL_NAME_LENGTH n)"
  shows "length (canonicalize n) \<le> MAX_CHANNEL_NAME_LENGTH"
proof -
  let ?t = "take MAX_CHANNEL_NAME_LENGTH n"
  have "0x130 \<notin> set (collapse_ws ?t)"
    using assms collapse_ws_units [of "0x130" ?t] by auto
  then have "length (canonicalize n) = length (collapse_ws ?t)"
    by (simp add: canonicalize_def length_toLowerCase)
  also have "\<dots> \<le> length ?t" by (rule length_collapse_ws)
  also have "\<dots> \<le> MAX_CHANNEL_NAME_LENGTH" by simp
  finally show ?thesis .
qed

text \<open>A canonical form of at most 21 code units is its own canonical form.\<close>

lemma canonicalize_idem:
  assumes "length (canonicalize n) \<le> MAX_CHANNEL_NAME_LENGTH"
  shows "canonicalize (canonicalize n) = canonicalize n"
proof -
  let ?c = "canonicalize n"
  have "take MAX_CHANNEL_NAME_LENGTH ?c = ?c" using assms by simp
  moreover have "collapse_ws ?c = ?c"
    by (rule collapse_ws_fixed) (rule canonicalize_no_space)
  moreover have "toLowerCase ?c = ?c"
    by (rule toLowerCase_fixed) (auto dest: canonicalize_no_upper canonicalize_no_dotted)
  ultimately show ?thesis by (simp add: canonicalize_def [of ?c])
qed

text \<open>
  C4. The claim is that canonicalizing twice gives what canonicalizing once gives, for
  every name. It holds for the names of the two lemmas above, and fails for the name of
  21 letters U+0130: \<open>slice\<close> keeps all 21, \<open>toLowerCase\<close> turns each into two code
  units, and canonicalizing those 42 code units again cuts them to 21.
\<close>

theorem canonicalize_twice_differs:
  "canonicalize (canonicalize dotted_name) \<noteq> canonicalize dotted_name
   \<and> length (canonicalize (canonicalize dotted_name)) = 21"
  by code_simp

text \<open>
  C5. The claim is that the canonical form of every name has at most 21 characters, no
  capital letter and no white space. The canonical form of the name of 21 letters
  U+0130 has 42 code units: the name is cut to 21 before it is put in lower case.
\<close>

theorem canonicalize_exceeds_limit:
  "length dotted_name = MAX_CHANNEL_NAME_LENGTH
   \<and> length (canonicalize dotted_name) = 42"
  by code_simp

section \<open>Requests and outcomes: basic facts\<close>

lemma andThen_simps [simp]:
  "andThen (Inl e) f = Inl e"
  "andThen (Inr v) f = f v"
  by (simp_all add: andThen_def)

lemma andThen_assoc: "andThen (andThen r f) g = andThen r (\<lambda>x. andThen (f x) g)"
  by (cases r) simp_all

lemma http_write_issued: "http_write req w = (respond w (sent w) req, issued w req)"
  by (simp add: http_write_def issued_def)

text \<open>
  A call that only adds to the requests sent is known from its result and the requests
  sent after it.
\<close>

lemma outcome_from_trace:
  assumes frame: "\<And>out. call = Some out \<Longrightarrow> \<exists>reqs. snd out = w\<lparr>sent := sent w @ reqs\<rparr>"
    and run: "map_option trace call = Some (r, reqs)"
  shows "call = Some (r, w\<lparr>sent := reqs\<rparr>)"
proof -
  from run obtain out where out: "call = Some out" "fst out = r" "sent (snd out) = reqs"
    by (auto simp: trace_def)
  from frame [OF out(1)] obtain xs where "snd out = w\<lparr>sent := sent w @ xs\<rparr>" by blast
  with out(3) have "snd out = w\<lparr>sent := reqs\<rparr>" by auto
  with out show ?thesis by (cases out) auto
qed

section \<open>The paginated lookups\<close>

subsection \<open>getChannel\<close>

lemma getChannel_loop_frame:
  assumes "getChannel_loop channelName s w = Some out"
  shows "\<exists>reqs. snd out = w\<lparr>sent := sent w @ reqs\<rparr>"
proof (rule getChannel_loop.raw_induct
    [where P = "\<lambda>n s w out. \<exists>reqs. snd out = w\<lparr>sent := sent w @ reqs\<rparr>", OF _ assms])
  fix loop channelName s w out
  assume IH: "\<And>n s w out. loop n s w = Some out \<Longrightarrow> \<exists>reqs. snd out = w\<lparr>sent := sent w @ reqs\<rparr>"
    and eq: "(case http_write (channels_list_request w s) w of
               (r, w') \<Rightarrow>
                 (case channel_page channelName s r of
                    Inl e \<Rightarrow> Some (Inl e, w')
                  | Inr (Return v) \<Rightarrow> Some (Inr v, w')
                  | Inr (Again s') \<Rightarrow> loop channelName s' w')) = Some out"
  let ?req = "channels_list_request w s"
  let ?r = "respond w (sent w) ?req"
  have one: "issued w ?req = w\<lparr>sent := sent w @ [?req]\<rparr>" by (simp add: issued_def)
  show "\<exists>reqs. snd out = w\<lparr>sent := sent w @ reqs\<rparr>"
  proof (cases "channel_page channelName s ?r")
    case (Inl e)
    with eq have "snd out = issued w ?req" by (auto simp: http_write_issued)
    with one show ?thesis by (intro exI [where x = "[?req]"]) simp
  next
    case (Inr st)
    show ?thesis
    proof (cases st)
      case (Return u)
      with Inr eq have "snd out = issued w ?req" by (auto simp: http_write_issued)
      with one show ?thesis by (intro exI [where x = "[?req]"]) simp
    next
      case (Again s')
      with Inr eq have "loop channelName s' (issued w ?req) = Some out"
        by (simp add: http_write_issued)
      from IH [OF this] obtain reqs
        where "snd out = (issued w ?req)\<lparr>sent := sent (issued w ?req) @ reqs\<rparr>"
        by blast
      then show ?thesis
        by (intro exI [where x = "?req # reqs"]) (simp add: issued_def)
    qed
  qed
qed

lemma getChannel_frame:
  assumes "getChannel channelName w = Some out"
  shows "\<exists>reqs. snd out = w\<lparr>sent := sent w @ reqs\<rparr>"
proof (cases "canonical_name channelName")
  case (Inl e)
  with assms have "snd out = w" by (auto simp: getChannel_def)
  then show ?thesis by (intro exI [where x = "[]"]) simp
next
  case (Inr name)
  with assms have
    "getChannel_loop name \<lparr>parms = [], cursor = VUndefined, found = VNull\<rparr> w = Some out"
    by (simp add: getChannel_def)
  then show ?thesis by (rule getChannel_loop_frame)
qed

lemma find_channel_result:
  "find_channel channelName cs channelBody = Inr v \<Longrightarrow>
     v = channelBody \<or> (\<exists>kvs. v = VObj kvs)"
proof (induction cs)
  case Nil
  then show ?case by simp
next
  case (Cons c cs)
  show ?case
  proof (cases c)
    case (VObj kvs)
    with Cons show ?thesis
      by (auto simp: andThen_def split: sum.splits if_splits)
  qed (use Cons in \<open>auto simp: andThen_def split: sum.splits if_splits\<close>)
qed

lemma channel_next_result:
  "channel_next slackBody p channelBody = Inr st \<Longrightarrow>
     (case st of Return v \<Rightarrow> v = channelBody | Again s' \<Rightarrow> found s' = VNull)"
  by (auto simp: channel_next_def andThen_def split: sum.splits if_splits)

lemma channel_page_result:
  assumes "channel_page channelName s r = Inr st" and "found s = VNull"
  shows "case st of Return v \<Rightarrow> v = VNull \<or> (\<exists>kvs. v = VObj kvs) | Again s' \<Rightarrow> found s' = VNull"
  using assms
  by (auto simp: channel_page_def andThen_def split: sum.splits if_splits step.splits
           dest!: find_channel_result channel_next_result)

lemma getChannel_loop_result:
  assumes "getChannel_loop channelName s w = Some out"
  shows "found s = VNull \<longrightarrow> (\<forall>v. fst out = Inr v \<longrightarrow> v = VNull \<or> (\<exists>kvs. v = VObj kvs))"
proof (rule getChannel_loop.raw_induct
    [where P = "\<lambda>n s w out. found s = VNull \<longrightarrow>
                  (\<forall>v. fst out = Inr v \<longrightarrow> v = VNull \<or> (\<exists>kvs. v = VObj kvs))",
     OF _ assms])
  fix loop channelName s w out
  assume IH: "\<And>n s w out. loop n s w = Some out \<Longrightarrow>
                found s = VNull \<longrightarrow> (\<forall>v. fst out = Inr v \<longrightarrow> v = VNull \<or> (\<exists>kvs. v = VObj kvs))"
    and eq: "(case http_write (channels_list_request w s) w of
               (r, w') \<Rightarrow>
                 (case channel_page channelName s r of
                    Inl e \<Rightarrow> Some (Inl e, w')
                  | Inr (Return v) \<Rightarrow> Some (Inr v, w')
                  | Inr (Again s') \<Rightarrow> loop channelName s' w')) = Some out"
  let ?r = "respond w (sent w) (channels_list_request w s)"
  show "found s = VNull \<longrightarrow> (\<forall>v. fst out = Inr v \<longrightarrow> v = VNull \<or> (\<exists>kvs. v = VObj kvs))"
  proof (intro impI allI)
    fix v
    assume null: "found s = VNull" and v: "fst out = Inr v"
    show "v = VNull \<or> (\<exists>kvs. v = VObj kvs)"
    proof (cases "channel_page channelName s ?r")
      case (Inl e)
      with eq v show ?thesis by (auto simp: http_write_issued)
    next
      case (Inr st)
      note page = channel_page_result [OF Inr null]
      show ?thesis
      proof (cases st)
        case (Return u)
        with Inr eq v page show ?thesis by (auto simp: http_write_issued)
      next
        case (Again s')
        with Inr eq have "loop channelName s' (issued w (channels_list_request w s)) = Some out"
          by (simp add: http_write_issued)
        from IH [OF this] page Again v show ?thesis by simp
      qed
    qed
  qed
qed

text \<open>What \<open>getChannel\<close> returns is \<open>null\<close> or an object.\<close>

lemma getChannel_result:
  "getChannel channelName w = Some (Inr v, w') \<Longrightarrow> v = VNull \<or> (\<exists>kvs. v = VObj kvs)"
  using getChannel_loop_result
    [of _ "\<lparr>parms = [], cursor = VUndefined, found = VNull\<rparr>" w "(Inr v, w')"]
  by (auto simp: getChannel_def split: sum.splits)

lemma get_prop_object:
  "v \<noteq> VNull \<Longrightarrow> v = VNull \<or> (\<exists>kvs. v = VObj kvs) \<Longrightarrow> get_prop v k = Inr (property v k)"
  by (auto simp: property_def)

text \<open>
  An iteration of \<open>getChannel\<close> whose page is not \<open>ok\<close> is the last: the loop returns
  \<open>channelBody\<close>, which is \<open>null\<close> in every iteration, and one request went out.
\<close>

lemma getChannel_loop_stops_on_failure:
  assumes "answer w (channels_list_request w s) = Inr slackBody" and "not_ok slackBody"
    and "found s = VNull"
  shows "getChannel_loop channelName s w = Some (Inr VNull, issued w (channels_list_request w s))"
proof -
  from assms have
    "channel_page channelName s (respond w (sent w) (channels_list_request w s)) = Inr (Return VNull)"
    by (auto simp: channel_page_def answer_def not_ok_def andThen_def split: sum.splits)
  then show ?thesis
    by (subst getChannel_loop.simps) (simp add: http_write_issued)
qed

text \<open>
  An iteration of \<open>getChannel\<close> whose page is \<open>ok\<close> and holds a channel of that name is
  the last: the loop returns the channel, and one request went out.
\<close>

lemma getChannel_loop_stops_on_match:
  assumes "answer w (channels_list_request w s) = Inr slackBody"
    and "get_prop slackBody (str ''ok'') = Inr ok" and "truthy ok"
    and "find_channel channelName (for_in (property slackBody (str ''channels''))) (found s) = Inr c"
    and "c \<noteq> VNull"
  shows "getChannel_loop channelName s w = Some (Inr c, issued w (channels_list_request w s))"
proof -
  from assms(2) have "get_prop slackBody (str ''channels'')
      = Inr (property slackBody (str ''channels''))"
    by (cases slackBody) (simp_all add: property_def)
  with assms have
    "channel_page channelName s (respond w (sent w) (channels_list_request w s)) = Inr (Return c)"
    by (auto simp: channel_page_def channel_next_def answer_def andThen_def split: sum.splits)
  then show ?thesis
    by (subst getChannel_loop.simps) (simp add: http_write_issued)
qed

lemma is_ok_property: "is_ok slackBody \<Longrightarrow> get_prop slackBody k = Inr (property slackBody k)"
  by (cases slackBody) (simp_all add: is_ok_def property_def)

lemma is_ok_truthy:
  "is_ok slackBody \<Longrightarrow> \<exists>ok. get_prop slackBody (str ''ok'') = Inr ok \<and> truthy ok"
  by (auto simp: is_ok_def split: sum.splits)

lemma truthy_property:
  "truthy (property v k) \<Longrightarrow> get_prop v k = Inr (property v k) \<and> v \<noteq> VUndefined"
  by (cases v) (simp_all add: property_def)

text \<open>
  An iteration of \<open>getChannel\<close> whose page is \<open>ok\<close>, holds no channel of that name and
  names a next page is followed by the iteration for that page, after one request.
\<close>

lemma getChannel_loop_goes_on:
  assumes "answer w (channels_list_request w s) = Inr slackBody" and "is_ok slackBody"
    and "found s = VNull" and "no_match channelName slackBody"
    and "truthy (next_cursor_of slackBody)"
  shows "getChannel_loop channelName s w =
           getChannel_loop channelName (next_scan s slackBody)
             (issued w (channels_list_request w s))"
proof -
  let ?md = "property slackBody (str ''response_metadata'')"
  from assms(5) have md: "get_prop ?md (str ''next_cursor'') = Inr (next_cursor_of slackBody)"
    "?md \<noteq> VUndefined"
    using truthy_property [of ?md "str ''next_cursor''"] by (simp_all add: next_cursor_of_def)
  from is_ok_truthy [OF assms(2)] obtain ok
    where ok: "get_prop slackBody (str ''ok'') = Inr ok" "truthy ok"
    by blast
  have "channel_page channelName s (respond w (sent w) (channels_list_request w s))
          = Inr (Again (next_scan s slackBody))"
    using assms(1,3,4,5) ok md is_ok_property [OF assms(2)]
    by (auto simp: channel_page_def channel_next_def answer_def andThen_def no_match_def
                   next_scan_def
             split: sum.splits)
  then show ?thesis
    by (subst getChannel_loop.simps) (simp add: http_write_issued)
qed

text \<open>
  The scan of \<open>getChannel\<close> over pages: if the next requests are answered with pages
  that are \<open>ok\<close>, the first k - 1 of them without a channel of that name and each naming
  a next page, and page k with such a channel, then the loop returns that channel after
  exactly k requests.
\<close>

lemma getChannel_requests_until_match:
  assumes "served w s (ps @ [p])" and "found s = VNull"
    and "\<forall>q \<in> set ps. is_ok q \<and> no_match channelName q \<and> truthy (next_cursor_of q)"
    and "is_ok p"
    and "find_channel channelName (for_in (property p (str ''channels''))) VNull = Inr c"
    and "c \<noteq> VNull"
  shows "\<exists>w'. getChannel_loop channelName s w = Some (Inr c, w')
           \<and> length (sent w') = length (sent w) + length ps + 1"
  using assms(1,2,3)
proof (induction ps arbitrary: s w)
  case Nil
  then have ans: "answer w (channels_list_request w s) = Inr p" by simp
  from is_ok_truthy [OF assms(4)] obtain ok
    where ok: "get_prop p (str ''ok'') = Inr ok" "truthy ok"
    by blast
  from assms(5) Nil(2)
  have "find_channel channelName (for_in (property p (str ''channels''))) (found s) = Inr c"
    by simp
  from getChannel_loop_stops_on_match [OF ans ok this assms(6)]
  show ?case by (simp add: issued_def)
next
  case (Cons q qs)
  let ?req = "channels_list_request w s"
  from Cons.prems(1) have ans: "answer w ?req = Inr q"
    and rest: "served (issued w ?req) (next_scan s q) (qs @ [p])"
    by simp_all
  from Cons.prems(3) have q: "is_ok q" "no_match channelName q" "truthy (next_cursor_of q)"
    and qs: "\<forall>q \<in> set qs. is_ok q \<and> no_match channelName q \<and> truthy (next_cursor_of q)"
    by simp_all
  have null: "found (next_scan s q) = VNull" by (simp add: next_scan_def)
  from Cons.IH [OF rest null qs] obtain w' where
    "getChannel_loop channelName (next_scan s q) (issued w ?req) = Some (Inr c, w')"
    "length (sent w') = length (sent (issued w ?req)) + length qs + 1"
    by blast
  with getChannel_loop_goes_on [OF ans q(1) Cons.prems(2) q(2,3)]
  show ?case by (simp add: issued_def)
qed

text \<open>The same for \<open>getChannel\<close> itself, which starts the loop on the canonical name.\<close>

lemma getChannel_short_circuits:
  assumes "canonical_name channelName = Inr name"
    and "served w \<lparr>parms = [], cursor = VUndefined, found = VNull\<rparr> (ps @ [p])"
    and "\<forall>q \<in> set ps. is_ok q \<and> no_match name q \<and> truthy (next_cursor_of q)"
    and "is_ok p"
    and "find_channel name (for_in (property p (str ''channels''))) VNull = Inr c"
    and "c \<noteq> VNull"
  shows "\<exists>w'. getChannel channelName w = Some (Inr c, w')
           \<and> length (sent w') = length (sent w) + length ps + 1"
  using getChannel_requests_until_match [OF assms(2) _ assms(3,4,5,6)] assms(1)
  by (simp add: getChannel_def)

text \<open>
  An iteration of \<open>getChannel\<close> whose page is \<open>ok\<close>, holds no channel of that name and
  names no next page is the last: the loop returns \<open>null\<close>. Over pages: with no channel
  of that name on any of k pages, the last of which names no next page, the loop returns
  \<open>null\<close> after exactly k requests.
\<close>

lemma getChannel_loop_stops_at_end:
  assumes "answer w (channels_list_request w s) = Inr slackBody" and "is_ok slackBody"
    and "found s = VNull" and "no_match channelName slackBody"
    and "property slackBody (str ''response_metadata'') \<noteq> VNull"
    and "\<not> truthy (next_cursor_of slackBody)"
  shows "getChannel_loop channelName s w =
           Some (Inr VNull, issued w (channels_list_request w s))"
proof -
  let ?md = "property slackBody (str ''response_metadata'')"
  from is_ok_truthy [OF assms(2)] obtain ok
    where ok: "get_prop slackBody (str ''ok'') = Inr ok" "truthy ok"
    by blast
  have md: "?md \<noteq> VUndefined \<Longrightarrow> get_prop ?md (str ''next_cursor'') = Inr (next_cursor_of slackBody)"
    using assms(5) by (cases ?md) (simp_all add: next_cursor_of_def property_def)
  have "channel_page channelName s (respond w (sent w) (channels_list_request w s))
          = Inr (Return VNull)"
    using assms(1,3,4,6) ok md is_ok_property [OF assms(2)]
    by (auto simp: channel_page_def channel_next_def answer_def andThen_def no_match_def
             split: sum.splits)
  then show ?thesis
    by (subst getChannel_loop.simps) (simp add: http_write_issued)
qed

lemma getChannel_requests_until_end:
  assumes "served w s (ps @ [p])" and "found s = VNull"
    and "\<forall>q \<in> set ps. is_ok q \<and> no_match channelName q \<and> truthy (next_cursor_of q)"
    and "is_ok p" and "no_match channelName p"
    and "property p (str ''response_metadata'') \<noteq> VNull"
    and "\<not> truthy (next_cursor_of p)"
  shows "\<exists>w'. getChannel_loop channelName s w = Some (Inr VNull, w')
           \<and> length (sent w') = length (sent w) + length ps + 1"
  using assms(1,2,3)
proof (induction ps arbitrary: s w)
  case Nil
  then have ans: "answer w (channels_list_request w s) = Inr p" by simp
  from getChannel_loop_stops_at_end [OF ans assms(4) Nil(2) assms(5,6,7)]
  show ?case by (simp add: issued_def)
next
  case (Cons q qs)
  let ?req = "channels_list_request w s"
  from Cons.prems(1) have ans: "answer w ?req = Inr q"
    and rest: "served (issued w ?req) (next_scan s q) (qs @ [p])"
    by simp_all
  from Cons.prems(3) have q: "is_ok q" "no_match channelName q" "truthy (next_cursor_of q)"
    and qs: "\<forall>q \<in> set qs. is_ok q \<and> no_match channelName q \<and> truthy (next_cursor_of q)"
    by simp_all
  have null: "found (next_scan s q) = VNull" by (simp add: next_scan_def)
  from Cons.IH [OF rest null qs] obtain w' where
    "getChannel_loop channelName (next_scan s q) (issued w ?req) = Some (Inr VNull, w')"
    "length (sent w') = length (sent (issued w ?req)) + length qs + 1"
    by blast
  with getChannel_loop_goes_on [OF ans q(1) Cons.prems(2) q(2,3)]
  show ?case by (simp add: issued_def)
qed

subsection \<open>getUserInfo\<close>

text \<open>
  An iteration of \<open>getUserInfo\<close> whose page is not \<open>ok\<close> is the last as well; what the
  loop returns is \<open>slackMember\<close> as the iterations before left it.
\<close>

lemma getUserInfo_loop_stops_on_failure:
  assumes "answer w (users_list_request w s) = Inr slackBody" and "not_ok slackBody"
  shows "getUserInfo_loop username s w = Some (Inr (found s), issued w (users_list_request w s))"
proof -
  from assms have
    "user_page username s (respond w (sent w) (users_list_request w s)) = Inr (Return (found s))"
    by (auto simp: user_page_def answer_def not_ok_def andThen_def split: sum.splits)
  then show ?thesis
    by (subst getUserInfo_loop.simps) (simp add: http_write_issued)
qed

text \<open>
  An iteration of \<open>getUserInfo\<close> whose page is \<open>ok\<close> and names a next page is followed
  by the iteration for that page, whether or not a member was found: \<open>slackMember\<close>
  goes along.
\<close>

lemma getUserInfo_loop_goes_on:
  assumes "answer w (users_list_request w s) = Inr slackBody" and "is_ok slackBody"
    and "find_member username (for_in (property slackBody (str ''members''))) (found s) = Inr m"
    and "truthy (next_cursor_of slackBody)"
  shows "getUserInfo_loop username s w =
           getUserInfo_loop username
             \<lparr>parms = next_parms s, cursor = next_cursor_of slackBody, found = m\<rparr>
             (issued w (users_list_request w s))"
proof -
  let ?md = "property slackBody (str ''response_metadata'')"
  from assms(4) have md: "get_prop ?md (str ''next_cursor'') = Inr (next_cursor_of slackBody)"
    using truthy_property [of ?md "str ''next_cursor''"] by (simp add: next_cursor_of_def)
  from is_ok_truthy [OF assms(2)] obtain ok
    where ok: "get_prop slackBody (str ''ok'') = Inr ok" "truthy ok"
    by blast
  have "user_page username s (respond w (sent w) (users_list_request w s))
          = Inr (Again \<lparr>parms = next_parms s, cursor = next_cursor_of slackBody, found = m\<rparr>)"
    using assms(1,3,4) ok md is_ok_property [OF assms(2)]
    by (auto simp: user_page_def user_next_def answer_def andThen_def split: sum.splits)
  then show ?thesis
    by (subst getUserInfo_loop.simps) (simp add: http_write_issued)
qed

text \<open>
  C1. The claim is that a match on page k ends both lookups after exactly k requests.
  \<open>getChannel\<close> does so (\<open>getChannel_requests_until_match\<close>); \<open>getUserInfo\<close> does not
  look at \<open>slackMember\<close> when it decides to go on (\<open>getUserInfo_loop_goes_on\<close>). With
  \<open>bob\<close> on the first of two pages of users, it finds him on page 1 and still requests
  page 2.
\<close>

theorem getUserInfo_fetches_past_match:
  "find_member (VStr (str ''bob'')) [member_record (str ''U1'') (str ''bob'') (str ''Bob'')] VNull
     = Inr (member_record (str ''U1'') (str ''bob'') (str ''Bob''))
   \<and> map_option observed (getUserInfo (VStr (str ''bob'')) users_two_pages) =
       Some (Inr (member_record (str ''U1'') (str ''bob'') (str ''Bob'')),
             [str ''/api/users.list?token=T'', str ''/api/users.list?token=T&cursor=c1''])"
  by code_simp

text \<open>
  C6. The claim is that a page that is not \<open>ok\<close> ends both lookups at once, with
  \<open>null\<close> as the result. Both stop at once; \<open>getChannel\<close> returns \<open>null\<close>
  (\<open>getChannel_loop_stops_on_failure\<close>), \<open>getUserInfo\<close> returns \<open>slackMember\<close>, and
  that is the member found on an earlier page when the loop went on after finding him:
  with \<open>bob\<close> on page 1 and a failure in answer to the request for page 2, it returns
  \<open>bob\<close>.
\<close>

theorem getUserInfo_failure_returns_member:
  "answer (issued users_then_failure (users_list_request users_then_failure first_page))
     (users_list_request users_then_failure second_page)
     = Inr (failure (str ''ratelimited''))
   \<and> map_option observed (getUserInfo (VStr (str ''bob'')) users_then_failure) =
       Some (Inr (member_record (str ''U1'') (str ''bob'') (str ''Bob'')),
             [str ''/api/users.list?token=T'', str ''/api/users.list?token=T&cursor=c1''])"
  by code_simp

section \<open>createChannel\<close>

text \<open>
  C3. For every name: once the create call is answered, \<open>createChannel\<close> returns what
  \<open>getChannel\<close> returns for the canonical name if the error code of the answer is
  \<open>name_taken\<close>, and the \<open>channel\<close> of the answer otherwise, with the create call as the
  only request. The test of the code is \<open>slackBody.error == 'name_taken'\<close>; for an
  error code that is a string it is equality (\<open>loose_eq_literal.simps\<close>).
\<close>

theorem createChannel_name_taken:
  assumes "canonical_name channelName = Inr name"
    and "answer w (channels_create_request w name) = Inr slackBody"
    and "get_prop slackBody (str ''error'') = Inr err"
  shows "createChannel channelName w =
           (if loose_eq_literal err (str ''name_taken'')
            then getChannel (VStr name) (issued w (channels_create_request w name))
            else Some (get_prop slackBody (str ''channel''),
                       issued w (channels_create_request w name)))"
  using assms by (simp add: createChannel_def http_write_issued answer_def)

theorem createChannel_name_taken_witness:
  "createChannel (VStr (str ''My Room'')) workspace =
     getChannel (VStr (str ''my-room''))
       (issued workspace (channels_create_request workspace (str ''my-room'')))
   \<and> map_option observed (createChannel (VStr (str ''My Room'')) workspace) =
       Some (Inr (channel_record (str ''C1'') (str ''my-room'')),
             [str ''/api/channels.create?token=T&name=my-room'',
              str ''/api/channels.list?token=T'',
              str ''/api/channels.list?token=T&cursor=c1''])
   \<and> createChannel (VStr (str ''New Room'')) workspace =
       Some (Inr (channel_record (str ''C2'') (str ''new-room'')),
             issued workspace (channels_create_request workspace (str ''new-room'')))"
proof -
  let ?created = "VObj [(str ''ok'', VBool True),
                        (str ''channel'', channel_record (str ''C2'') (str ''new-room''))]"
  have n1: "canonical_name (VStr (str ''My Room'')) = Inr (str ''my-room'')"
    by code_simp
  have a1: "answer workspace (channels_create_request workspace (str ''my-room'')) =
              Inr (failure (str ''name_taken''))"
    by code_simp
  have e1: "get_prop (failure (str ''name_taken'')) (str ''error'') =
              Inr (VStr (str ''name_taken''))"
    by code_simp
  have n2: "canonical_name (VStr (str ''New Room'')) = Inr (str ''new-room'')"
    by code_simp
  have a2: "answer workspace (channels_create_request workspace (str ''new-room'')) =
              Inr ?created"
    by code_simp
  have e2: "get_prop ?created (str ''error'') = Inr VUndefined"
    by code_simp
  have c2: "get_prop ?created (str ''channel'') =
              Inr (channel_record (str ''C2'') (str ''new-room''))"
    by code_simp
  have run: "map_option observed (createChannel (VStr (str ''My Room'')) workspace) =
       Some (Inr (channel_record (str ''C1'') (str ''my-room'')),
             [str ''/api/channels.create?token=T&name=my-room'',
              str ''/api/channels.list?token=T'',
              str ''/api/channels.list?token=T&cursor=c1''])"
    by code_simp
  show ?thesis
    using createChannel_name_taken [OF n1 a1 e1] createChannel_name_taken [OF n2 a2 e2] c2 run
    by simp
qed

section \<open>getRoomHistory and archiveChannel\<close>

text \<open>The lookups of the two scenarios below, with the world each leaves.\<close>

lemma lookup_of_no_channel:
  "getChannel (VStr (str ''no-channel'')) workspace =
     Some (Inr VNull,
           workspace\<lparr>sent := [channels_list_request workspace first_page,
                              channels_list_request workspace second_page]\<rparr>)"
proof (rule outcome_from_trace [OF getChannel_frame])
  show "map_option trace (getChannel (VStr (str ''no-channel'')) workspace) =
          Some (Inr VNull, [channels_list_request workspace first_page,
                            channels_list_request workspace second_page])"
    by code_simp
qed

lemma lookup_of_my_room:
  "getChannel (VStr (str ''my-room'')) workspace =
     Some (Inr (channel_record (str ''C1'') (str ''my-room'')),
           workspace\<lparr>sent := [channels_list_request workspace first_page,
                              channels_list_request workspace second_page]\<rparr>)"
proof (rule outcome_from_trace [OF getChannel_frame])
  show "map_option trace (getChannel (VStr (str ''my-room'')) workspace) =
          Some (Inr (channel_record (str ''C1'') (str ''my-room'')),
                [channels_list_request workspace first_page,
                 channels_list_request workspace second_page])"
    by code_simp
qed

text \<open>
  C7. Let the lookup of \<open>getRoomHistory\<close> return \<open>channel\<close> and leave the world
  \<open>w'\<close>. If \<open>channel\<close> is \<open>null\<close>, \<open>getRoomHistory\<close> returns \<open>null\<close> in the world
  \<open>w'\<close>: no request follows the lookup. If it is not \<open>null\<close> and the history request is
  answered with a body that is not \<open>ok\<close>, \<open>getRoomHistory\<close> returns \<open>null\<close> too, after
  that one request.
\<close>

theorem getRoomHistory_none:
  assumes "getChannel channelName w = Some (Inr channel, w')"
  shows "(channel = VNull \<longrightarrow>
            getRoomHistory channelName count latest oldest w = Some (Inr VNull, w'))
       \<and> (channel \<noteq> VNull
            \<and> answer w' (channels_history_request w' (property channel (str ''id''))
                           count latest oldest) = Inr slackBody
            \<and> not_ok slackBody \<longrightarrow>
            getRoomHistory channelName count latest oldest w =
              Some (Inr VNull,
                    issued w' (channels_history_request w' (property channel (str ''id''))
                                 count latest oldest)))"
proof (intro conjI impI)
  assume "channel = VNull"
  with assms show "getRoomHistory channelName count latest oldest w = Some (Inr VNull, w')"
    by (simp add: getRoomHistory_def)
next
  let ?req = "channels_history_request w' (property channel (str ''id'')) count latest oldest"
  assume h: "channel \<noteq> VNull \<and> answer w' ?req = Inr slackBody \<and> not_ok slackBody"
  then have id: "get_prop channel (str ''id'') = Inr (property channel (str ''id''))"
    using getChannel_result [OF assms] by (intro get_prop_object) auto
  from h have "history_result (respond w' (sent w') ?req) = Inr VNull"
    by (auto simp: history_result_def answer_def not_ok_def split: sum.splits)
  with assms h id
  show "getRoomHistory channelName count latest oldest w = Some (Inr VNull, issued w' ?req)"
    by (simp add: getRoomHistory_def http_write_issued)
qed

theorem getRoomHistory_none_witness:
  "observed (the (getRoomHistory (VStr (str ''no-channel'')) VUndefined VUndefined VUndefined
                    workspace)) =
     (Inr VNull, [str ''/api/channels.list?token=T'', str ''/api/channels.list?token=T&cursor=c1''])
   \<and> observed (the (getRoomHistory (VStr (str ''my-room'')) VUndefined VUndefined VUndefined
                      workspace)) =
     (Inr VNull, [str ''/api/channels.list?token=T'', str ''/api/channels.list?token=T&cursor=c1'',
                  str ''/api/channels.history?token=T&channel=C1''])"
proof -
  let ?room = "channel_record (str ''C1'') (str ''my-room'')"
  let ?w = "workspace\<lparr>sent := [channels_list_request workspace first_page,
                                channels_list_request workspace second_page]\<rparr>"
  let ?req = "channels_history_request ?w (property ?room (str ''id''))
                VUndefined VUndefined VUndefined"
  have room: "?room \<noteq> VNull" by code_simp
  have ans: "answer ?w ?req = Inr (failure (str ''not_in_channel''))" by code_simp
  have bad: "not_ok (failure (str ''not_in_channel''))" by code_simp
  have p1: "map path (sent ?w) =
     [str ''/api/channels.list?token=T'', str ''/api/channels.list?token=T&cursor=c1'']"
    by code_simp
  have p2: "map path (sent (issued ?w ?req)) =
     [str ''/api/channels.list?token=T'', str ''/api/channels.list?token=T&cursor=c1'',
      str ''/api/channels.history?token=T&channel=C1'']"
    by code_simp
  note a = getRoomHistory_none [OF lookup_of_no_channel, of VUndefined VUndefined VUndefined,
      THEN conjunct1, rule_format, OF refl]
  note b = getRoomHistory_none [OF lookup_of_my_room, of VUndefined VUndefined VUndefined,
      THEN conjunct2, rule_format, OF conjI [OF room conjI [OF ans bad]]]
  show ?thesis
    unfolding a b using p1 p2 by (simp add: observed_def)
qed

text \<open>
  C9. For every channel name whose lookup returns \<open>null\<close>, \<open>archiveChannel\<close> throws
  a \<open>TypeError\<close>: it reads \<open>channel.id\<close> of \<open>null\<close>. No archive request goes out; the
  world is the one the lookup left.
\<close>

theorem archiveChannel_not_found_throws:
  assumes "canonical_name channelName = Inr name"
    and "getChannel (VStr name) w = Some (Inr VNull, w')"
  shows "archiveChannel channelName w = Some (Inl TypeError, w')"
  using assms by (simp add: archiveChannel_def)

theorem archiveChannel_not_found_throws_witness:
  "observed (the (archiveChannel (VStr (str ''No Channel'')) workspace)) =
     (Inl TypeError,
      [str ''/api/channels.list?token=T'', str ''/api/channels.list?token=T&cursor=c1''])"
proof -
  let ?w = "workspace\<lparr>sent := [channels_list_request workspace first_page,
                                channels_list_request workspace second_page]\<rparr>"
  have n: "canonical_name (VStr (str ''No Channel'')) = Inr (str ''no-channel'')" by code_simp
  have p: "map path (sent ?w) =
     [str ''/api/channels.list?token=T'', str ''/api/channels.list?token=T&cursor=c1'']"
    by code_simp
  show ?thesis
    unfolding archiveChannel_not_found_throws [OF n lookup_of_no_channel]
    using p by (simp add: observed_def)
qed

section \<open>Invitations\<close>

subsection \<open>inviteToChannel\<close>

text \<open>When a resolution gives \<open>null\<close>, \<open>inviteToChannel\<close> returns \<open>null\<close> and no
  invite request goes out.\<close>

lemma inviteToChannel_channel_unresolved:
  assumes "\<not> truthy channelId" and "getChannel channelName w = Some (Inr VNull, w')"
  shows "inviteToChannel userName channelName userId channelId w = Some (Inr None, w')"
  using assms by (simp add: inviteToChannel_def resolve_channelId_def)

lemma inviteToChannel_user_unresolved:
  assumes "resolve_channelId channelName channelId w = Some (Inr (Some c), w1)"
    and "\<not> truthy userId" and "getUserInfo userName w1 = Some (Inr VNull, w2)"
  shows "inviteToChannel userName channelName userId channelId w = Some (Inr None, w2)"
  using assms by (simp add: inviteToChannel_def resolve_userId_def)

text \<open>
  C2. The claim is that, with both names resolved, the invite request carries the
  identifier of the channel and the identifier of the user. The code takes
  \<open>channel.channel_name\<close>, a property the channel record does not have, for the channel,
  and the whole user record for the user. For the channel \<open>my-room\<close> (id \<open>C1\<close>) and the
  user \<open>bob\<close> (id \<open>U1\<close>) the request is for \<open>channel=undefined&user=[object Object]\<close>.
\<close>

theorem inviteToChannel_sends_no_identifiers:
  "map_option observed
     (inviteToChannel (VStr (str ''bob'')) (VStr (str ''my-room'')) VUndefined VUndefined
        workspace) =
     Some (Inr (Some \<lparr>status = 404, body = None\<rparr>),
           [str ''/api/channels.list?token=T'', str ''/api/channels.list?token=T&cursor=c1'',
            str ''/api/users.list?token=T'',
            str ''/api/channels.invite?token=T&channel=undefined&user=[object Object]''])"
  by code_simp

subsection \<open>channelInvite\<close>

text \<open>
  A string that \<open>encodeURIComponent\<close> accepts can be followed by another one: the
  result is the two results, one after the other.
\<close>

lemma encode_units_append:
  "encode_units xs = Inr a \<Longrightarrow>
     encode_units (xs @ ys) = andThen (encode_units ys) (\<lambda>b. Inr (a @ b))"
proof (induction xs arbitrary: a rule: encode_units.induct)
  case 1
  then show ?case by (cases "encode_units ys") simp_all
next
  case (2 c cs)
  show ?case
  proof (cases "uri_unreserved c")
    case True
    with 2 show ?thesis
      by (cases "encode_units ys") (auto simp: andThen_def split: sum.splits)
  next
    case False
    note reserved = this
    show ?thesis
    proof (cases "is_low_surrogate c")
      case True
      with reserved "2.prems" show ?thesis by simp
    next
      case False
      note not_low = this
      show ?thesis
      proof (cases "is_high_surrogate c")
        case True
        with reserved not_low "2.prems" obtain d ds
          where cs: "cs = d # ds" and d: "is_low_surrogate d"
          by (cases cs) (auto split: if_splits)
        with reserved not_low True 2 show ?thesis
          by (cases "encode_units ys") (auto simp: andThen_def split: sum.splits)
      next
        case False
        with reserved not_low 2 show ?thesis
          by (cases "encode_units ys") (auto simp: andThen_def split: sum.splits)
      qed
    qed
  qed
qed

lemma encode_units_append_ok:
  "encode_units xs = Inr a \<Longrightarrow> encode_units ys = Inr b \<Longrightarrow>
     encode_units (xs @ ys) = Inr (a @ b)"
  by (simp add: encode_units_append)

lemma literal_keys:
  "str ''channel'' \<noteq> str ''user''" "str ''channel'' \<noteq> str ''token''"
  "str ''user'' \<noteq> str ''token''" "str ''channel'' \<noteq> str ''text''"
  "str ''text'' \<noteq> str ''token''" "str ''token'' \<noteq> str ''attachments''"
  by (simp_all add: str_def)

lemma encoded_literals:
  "encode_units (str ''channel'') = Inr (str ''channel'')"
  "encode_units (str ''user'') = Inr (str ''user'')"
  "encode_units (str ''text'') = Inr (str ''text'')"
  "encode_units (str ''token'') = Inr (str ''token'')"
  "encode_units (str ''<@'') = Inr (str ''%3C%40'')"
  "encode_units (str ''> already in channel'') = Inr (str ''%3E%20already%20in%20channel'')"
  by code_simp+

lemma invite_payload_eq:
  assumes "get_prop slackChannel (str ''id'') = Inr channel_id"
    and "get_prop slackUser (str ''id'') = Inr user_id"
  shows "invite_payload w slackUser slackChannel = Inr (invitation w channel_id user_id)"
  using assms literal_keys by (simp add: invite_payload_def invitation_def)

lemma truthy_of_name: "get_prop v k = Inr (VStr n) \<Longrightarrow> truthy v"
  by (cases v) simp_all

lemma mention_payload_eq:
  assumes "get_prop slackChannel (str ''id'') = Inr channel_id"
    and "get_prop slackUser (str ''id'') = Inr user_id"
    and "truthy slackUser"
  shows "mention_payload w (str '' already in channel'') slackChannel slackUser =
           Inr (reminder w channel_id user_id)"
proof -
  have "str '' already in channel'' \<noteq> []" by (simp add: str_def)
  moreover have "str ''>'' @ str '' already in channel'' = str ''> already in channel''"
    by (simp add: str_def)
  ultimately show ?thesis
    using assms literal_keys by (simp add: mention_payload_def reminder_def)
qed

lemma query_of_invitation:
  assumes "jsonToQueryString (invitation w channel_id user_id) = Inr qs"
  shows "\<exists>c u t. encodeURIComponent channel_id = Inr c \<and> encodeURIComponent user_id = Inr u
           \<and> encodeURIComponent (token w) = Inr t"
  using assms literal_keys
  by (auto simp: jsonToQueryString_def invitation_def andThen_def encoded_literals
           split: sum.splits)

lemma query_of_reminder:
  assumes "encodeURIComponent channel_id = Inr c" and "encodeURIComponent user_id = Inr u"
    and "encodeURIComponent (token w) = Inr t"
  shows "\<exists>qs. jsonToQueryString (reminder w channel_id user_id) = Inr qs"
proof -
  have "encode_units (str ''<@'' @ to_string user_id @ str ''> already in channel'')
          = Inr (str ''%3C%40'' @ u @ str ''%3E%20already%20in%20channel'')"
    using assms(2) by (simp add: encodeURIComponent_def encode_units_append_ok encoded_literals)
  then have
    "encodeURIComponent (VStr (str ''<@'' @ to_string user_id @ str ''> already in channel''))
       = Inr (str ''%3C%40'' @ u @ str ''%3E%20already%20in%20channel'')"
    by (simp add: encodeURIComponent_def)
  with assms literal_keys show ?thesis
    by (simp add: jsonToQueryString_def reminder_def encoded_literals)
qed

lemma reminds_user_already:
  assumes "get_prop slackBody (str ''error'') = Inr (VStr (str ''already_in_channel''))"
    and "get_prop slackUser (str ''name'') = Inr (VStr name)"
  shows "reminds_user slackBody slackUser = Inr (toLowerCase name \<noteq> str ''xmatters'')"
  using assms by (simp add: reminds_user_def)

lemma invite_reply_already:
  assumes "answer w req = Inr slackBody" and "not_ok slackBody"
    and "get_prop slackBody (str ''error'') = Inr (VStr (str ''already_in_channel''))"
    and "get_prop slackUser (str ''name'') = Inr (VStr name)"
  shows "invite_reply (respond w (sent w) req) slackUser =
           Inr (slackBody, Some (toLowerCase name \<noteq> str ''xmatters''))"
  using assms(1,2) reminds_user_already [OF assms(3,4)]
  by (auto simp: invite_reply_def answer_def not_ok_def split: sum.splits)

text \<open>
  C8. Take a user record with a name and a channel record, let the invite request go
  out and be answered with a body that is not \<open>ok\<close> and has the error code
  \<open>already_in_channel\<close>. If the name of the user, in lower case, is not \<open>xmatters\<close>,
  a second request follows: the message \<open><@user> already in channel\<close>, posted to that
  channel. If it is \<open>xmatters\<close>, \<open>channelInvite\<close> returns \<open>null\<close> and the invite
  request is the only one.
\<close>

theorem channelInvite_already_in_channel:
  assumes "get_prop slackChannel (str ''id'') = Inr channel_id"
    and "get_prop slackUser (str ''id'') = Inr user_id"
    and "get_prop slackUser (str ''name'') = Inr (VStr name)"
    and "jsonToQueryString (invitation w channel_id user_id) = Inr qs"
    and "answer w (post_request (str ''/api/channels.invite'') qs (invitation w channel_id user_id))
           = Inr slackBody"
    and "not_ok slackBody"
    and "get_prop slackBody (str ''error'') = Inr (VStr (str ''already_in_channel''))"
  shows "(toLowerCase name \<noteq> str ''xmatters'' \<longrightarrow>
            (\<exists>qs'. jsonToQueryString (reminder w channel_id user_id) = Inr qs'
               \<and> sent (snd (channelInvite slackUser slackChannel w)) =
                   sent w @ [post_request (str ''/api/channels.invite'') qs
                               (invitation w channel_id user_id),
                             post_request (str ''/api/chat.postMessage'') qs'
                               (reminder w channel_id user_id)]))
       \<and> (toLowerCase name = str ''xmatters'' \<longrightarrow>
            channelInvite slackUser slackChannel w =
              (Inr VNull,
               issued w (post_request (str ''/api/channels.invite'') qs
                           (invitation w channel_id user_id))))"
proof -
  let ?invite = "post_request (str ''/api/channels.invite'') qs (invitation w channel_id user_id)"
  let ?w = "issued w ?invite"
  note payload = invite_payload_eq [OF assms(1,2), of w]
  note reply = invite_reply_already [OF assms(5,6,7,3)]
  have call: "channelInvite slackUser slackChannel w =
      (if toLowerCase name \<noteq> str ''xmatters''
       then postMessageWithFields (str '' already in channel'') slackChannel slackUser ?w
       else (Inr VNull, ?w))"
    using payload assms(4) reply by (simp add: channelInvite_def http_write_issued)
  from query_of_invitation [OF assms(4)] obtain c u t where
    enc: "encodeURIComponent channel_id = Inr c" "encodeURIComponent user_id = Inr u"
         "encodeURIComponent (token w) = Inr t"
    by blast
  from query_of_reminder [OF enc] obtain qs' where
    qs': "jsonToQueryString (reminder w channel_id user_id) = Inr qs'"
    by blast
  have same: "reminder ?w channel_id user_id = reminder w channel_id user_id"
    by (simp add: reminder_def issued_def)
  have "mention_payload ?w (str '' already in channel'') slackChannel slackUser =
          Inr (reminder w channel_id user_id)"
    using mention_payload_eq [OF assms(1,2) truthy_of_name [OF assms(3)], of ?w] same by simp
  with qs' have post:
    "sent (snd (postMessageWithFields (str '' already in channel'') slackChannel slackUser ?w))
       = sent w @ [?invite, post_request (str ''/api/chat.postMessage'') qs'
                              (reminder w channel_id user_id)]"
    by (simp add: postMessageWithFields_def http_write_issued issued_def)
  show ?thesis
  proof (intro conjI impI)
    assume "toLowerCase name \<noteq> str ''xmatters''"
    with call post qs'
    show "\<exists>qs'. jsonToQueryString (reminder w channel_id user_id) = Inr qs'
               \<and> sent (snd (channelInvite slackUser slackChannel w)) =
                   sent w @ [?invite, post_request (str ''/api/chat.postMessage'') qs'
                               (reminder w channel_id user_id)]"
      by (intro exI [where x = qs']) simp
  next
    assume "toLowerCase name = str ''xmatters''"
    with call show "channelInvite slackUser slackChannel w = (Inr VNull, ?w)" by simp
  qed
qed

theorem channelInvite_already_in_channel_witness:
  "map path (sent (snd (channelInvite (member_record (str ''U1'') (str ''bob'') (str ''Bob''))
                          (channel_record (str ''C1'') (str ''my-room'')) workspace))) =
     [str ''/api/channels.invite?channel=C1&user=U1&token=T'',
      str ''/api/chat.postMessage?channel=C1&text=%3C%40U1%3E%20already%20in%20channel&token=T'']
   \<and> observed (channelInvite (member_record (str ''U9'') (str ''xMatters'') (str ''xM''))
                  (channel_record (str ''C1'') (str ''my-room'')) workspace) =
     (Inr VNull, [str ''/api/channels.invite?channel=C1&user=U9&token=T''])"
proof -
  let ?room = "channel_record (str ''C1'') (str ''my-room'')"
  let ?bob = "member_record (str ''U1'') (str ''bob'') (str ''Bob'')"
  let ?bot = "member_record (str ''U9'') (str ''xMatters'') (str ''xM'')"
  let ?qs1 = "str ''?channel=C1&user=U1&token=T''"
  let ?qs9 = "str ''?channel=C1&user=U9&token=T''"
  let ?taken = "failure (str ''already_in_channel'')"
  have room: "get_prop ?room (str ''id'') = Inr (VStr (str ''C1''))" by code_simp
  have bob: "get_prop ?bob (str ''id'') = Inr (VStr (str ''U1''))"
    "get_prop ?bob (str ''name'') = Inr (VStr (str ''bob''))" by code_simp+
  have bot: "get_prop ?bot (str ''id'') = Inr (VStr (str ''U9''))"
    "get_prop ?bot (str ''name'') = Inr (VStr (str ''xMatters''))" by code_simp+
  have qs:
    "jsonToQueryString (invitation workspace (VStr (str ''C1'')) (VStr (str ''U1''))) = Inr ?qs1"
    "jsonToQueryString (invitation workspace (VStr (str ''C1'')) (VStr (str ''U9''))) = Inr ?qs9"
    by code_simp+
  have ans: "answer workspace (post_request (str ''/api/channels.invite'') ?qs1
               (invitation workspace (VStr (str ''C1'')) (VStr (str ''U1'')))) = Inr ?taken"
    "answer workspace (post_request (str ''/api/channels.invite'') ?qs9
               (invitation workspace (VStr (str ''C1'')) (VStr (str ''U9'')))) = Inr ?taken"
    by code_simp+
  have bad: "not_ok ?taken" by code_simp
  have err: "get_prop ?taken (str ''error'') = Inr (VStr (str ''already_in_channel''))"
    by code_simp
  have names: "toLowerCase (str ''bob'') \<noteq> str ''xmatters''"
    "toLowerCase (str ''xMatters'') = str ''xmatters''" by code_simp+
  from channelInvite_already_in_channel
    [OF room bob qs(1) ans(1) bad err, THEN conjunct1, rule_format, OF names(1)]
  obtain qs' where
    q: "jsonToQueryString (reminder workspace (VStr (str ''C1'')) (VStr (str ''U1''))) = Inr qs'"
    and s: "sent (snd (channelInvite ?bob ?room workspace)) =
       sent workspace @ [post_request (str ''/api/channels.invite'') ?qs1
                           (invitation workspace (VStr (str ''C1'')) (VStr (str ''U1''))),
                         post_request (str ''/api/chat.postMessage'') qs'
                           (reminder workspace (VStr (str ''C1'')) (VStr (str ''U1'')))]"
    by blast
  have "jsonToQueryString (reminder workspace (VStr (str ''C1'')) (VStr (str ''U1''))) =
          Inr (str ''?channel=C1&text=%3C%40U1%3E%20already%20in%20channel&token=T'')"
    by code_simp
  with q have qs': "qs' = str ''?channel=C1&text=%3C%40U1%3E%20already%20in%20channel&token=T''"
    by simp
  have p: "str ''/api/channels.invite'' @ ?qs1 =
        str ''/api/channels.invite?channel=C1&user=U1&token=T''"
    "str ''/api/chat.postMessage''
       @ str ''?channel=C1&text=%3C%40U1%3E%20already%20in%20channel&token=T''
       = str ''/api/chat.postMessage?channel=C1&text=%3C%40U1%3E%20already%20in%20channel&token=T''"
    "str ''/api/channels.invite'' @ ?qs9 =
        str ''/api/channels.invite?channel=C1&user=U9&token=T''"
    "sent workspace = []"
    by code_simp+
  have first: "map path (sent (snd (channelInvite ?bob ?room workspace))) =
     [str ''/api/channels.invite?channel=C1&user=U1&token=T'',
      str ''/api/chat.postMessage?channel=C1&text=%3C%40U1%3E%20already%20in%20channel&token=T'']"
    unfolding s qs' using p by (simp add: post_request_def)
  note b = channelInvite_already_in_channel
    [OF room bot qs(2) ans(2) bad err, THEN conjunct2, rule_format, OF names(2)]
  have second: "observed (channelInvite ?bot ?room workspace) =
     (Inr VNull, [str ''/api/channels.invite?channel=C1&user=U9&token=T''])"
    unfolding b using p by (simp add: observed_def issued_def post_request_def)
  from first second show ?thesis by (intro conjI)
qed

section \<open>postMessage\<close>

lemma payload_attachments_token:
  "payload_attachments (AList.update (str ''token'') v payload) = payload_attachments payload"
  by (simp add: payload_attachments_def update_conv' str_def)

text \<open>
  C10, as the code has it. For every call \<open>postMessage(payload)\<close>, whatever it returns
  or throws, the object the caller passed has afterwards: the token under \<open>token\<close>;
  under \<open>attachments\<close> the serialised form of what was there, if that was truthy (an
  array, an object, a non-empty string); and every other property as before.
\<close>

theorem postMessage_payload_after:
  "map_of (fst (snd (postMessage payload w))) k =
     (if k = str ''attachments'' \<and> truthy (payload_attachments payload)
      then Some (JSON_stringify (payload_attachments payload))
      else if k = str ''token'' then Some (token w)
      else map_of payload k)"
proof -
  have "fst (snd (postMessage payload w)) = prepare_payload w payload"
    by (simp add: postMessage_def Let_def split: sum.splits prod.splits)
  moreover have "str ''token'' \<noteq> str ''attachments''" by (simp add: str_def)
  ultimately show ?thesis
    by (auto simp: prepare_payload_def Let_def payload_attachments_token update_conv')
qed

theorem postMessage_payload_after_witness:
  "map_of (fst (snd (postMessage
             [(str ''text'', VStr (str ''hi'')), (str ''attachments'', VArr [VNum 1, VNum 2])]
             workspace))) (str ''attachments'') = Some (VStr (str ''[1,2]''))
   \<and> map_of (fst (snd (postMessage
             [(str ''text'', VStr (str ''hi'')), (str ''attachments'', VArr [VNum 1, VNum 2])]
             workspace))) (str ''token'') = Some (VStr (str ''T''))
   \<and> map_of (fst (snd (postMessage
             [(str ''text'', VStr (str ''hi'')), (str ''attachments'', VArr [VNum 1, VNum 2])]
             workspace))) (str ''text'') = Some (VStr (str ''hi''))"
proof -
  let ?payload = "[(str ''text'', VStr (str ''hi'')), (str ''attachments'', VArr [VNum 1, VNum 2])]"
  have a: "payload_attachments ?payload = VArr [VNum 1, VNum 2]" by code_simp
  have j: "JSON_stringify (VArr [VNum 1, VNum 2]) = VStr (str ''[1,2]'')" by code_simp
  have t: "token workspace = VStr (str ''T'')" by code_simp
  have k: "str ''token'' \<noteq> str ''attachments''" "str ''text'' \<noteq> str ''attachments''"
    "str ''text'' \<noteq> str ''token''"
    by (simp_all add: str_def)
  have m: "map_of ?payload (str ''text'') = Some (VStr (str ''hi''))" by code_simp
  show ?thesis
    using postMessage_payload_after [of ?payload workspace "str ''attachments''"]
      postMessage_payload_after [of ?payload workspace "str ''token''"]
      postMessage_payload_after [of ?payload workspace "str ''text''"]
      a j t k m
    by simp
qed

text \<open>
  C10, as the claim has it, says that a payload that has an \<open>attachments\<close> property has
  it replaced by its serialised form. The code tests \<open>if (payload.attachments)\<close>: a
  property that is there with the value \<open>null\<close> stays \<open>null\<close>, where its serialised form
  is the string \<open>null\<close>.
\<close>

theorem postMessage_keeps_falsy_attachments:
  "map_of [(str ''text'', VStr (str ''hi'')), (str ''attachments'', VNull)] (str ''attachments'')
     = Some VNull
   \<and> map_of (fst (snd (postMessage
                [(str ''text'', VStr (str ''hi'')), (str ''attachments'', VNull)] workspace)))
        (str ''attachments'') = Some VNull
   \<and> JSON_stringify VNull = VStr (str ''null'')
   \<and> VNull \<noteq> VStr (str ''null'')"
  by code_simp

end
